theory Spec2Isabelle
  imports Main
begin

section \<open>String helpers of the Go standard library used by the plugin\<close>

text \<open>
  Go strings are byte sequences; they are modelled as \<^typ>\<open>string\<close> (lists of 8-bit
  characters). Only the library functions that \<^verbatim>\<open>internal/plugin/plugin.go\<close> calls are
  modelled.
\<close>

text \<open>\<^verbatim>\<open>strings.HasPrefix(s, prefix)\<close>.\<close>

fun hasPrefix :: "string \<Rightarrow> string \<Rightarrow> bool" where
  "hasPrefix s [] = True"
| "hasPrefix [] (p # ps) = False"
| "hasPrefix (c # cs) (p # ps) = (if c = p then hasPrefix cs ps else False)"

text \<open>\<^verbatim>\<open>strings.Contains(s, substr)\<close>: \<open>substr\<close> occurs in \<open>s\<close> as a contiguous block.\<close>

fun Contains :: "string \<Rightarrow> string \<Rightarrow> bool" where
  "Contains [] sub = (sub = [])"
| "Contains (c # cs) sub = (if hasPrefix (c # cs) sub then True else Contains cs sub)"

text \<open>
  \<^verbatim>\<open>strings.ReplaceAll(s, old, new)\<close>: non-overlapping occurrences of \<open>old\<close> are replaced
  from left to right. For an empty \<open>old\<close> Go inserts \<open>new\<close> before every character and at
  the end (the plugin's strings are ASCII, where characters are bytes).
\<close>

fun replaceNonEmpty :: "nat \<Rightarrow> string \<Rightarrow> string \<Rightarrow> string \<Rightarrow> string" where
  "replaceNonEmpty skip [] old new = []"
| "replaceNonEmpty (Suc k) (c # cs) old new = replaceNonEmpty k cs old new"
| "replaceNonEmpty 0 (c # cs) old new =
     (if hasPrefix (c # cs) old
      then new @ replaceNonEmpty (length old - 1) cs old new
      else c # replaceNonEmpty 0 cs old new)"

definition ReplaceAll :: "string \<Rightarrow> string \<Rightarrow> string \<Rightarrow> string" where
  "ReplaceAll s old new =
     (if old = [] then new @ concat (map (\<lambda>c. c # new) s)
      else replaceNonEmpty 0 s old new)"

text \<open>
  \<^verbatim>\<open>fmt.Sprintf(ml, arg)\<close> for the templates of the plugin, which hold the single verb
  \<^verbatim>\<open>%v\<close> and are applied to one string argument: the verb is replaced by the argument.
\<close>

definition Sprintf_v :: "string \<Rightarrow> string \<Rightarrow> string" where
  "Sprintf_v ml arg = ReplaceAll ml ''%v'' arg"

section \<open>Managed label tables\<close>

definition managedPRLabels :: "string list" where
  "managedPRLabels =
     [''conformance-product-submission'',
      ''not-conformance-product-submission'',
      ''not-verifiable'',
      ''release-documents-checked'',
      ''required-tests-missing'',
      ''evidence-missing'',
      ''unable-to-process'']"

definition managedPRLabelTemplatesWithVersion :: "string list" where
  "managedPRLabelTemplatesWithVersion =
     [''release-%v'', ''no-failed-tests-%v'', ''tests-verified-%v'']"

definition managedPRLabelTemplatesWithFileName :: "string list" where
  "managedPRLabelTemplatesWithFileName = [''missing-file-%v'']"

section \<open>Label classifiers\<close>

text \<open>The loop of \<^verbatim>\<open>labelIsManaged\<close> over the fixed names.\<close>

fun labelIsManagedLoop :: "string list \<Rightarrow> string \<Rightarrow> bool" where
  "labelIsManagedLoop [] input = False"
| "labelIsManagedLoop (l # ls) input = (if l = input then True else labelIsManagedLoop ls input)"

definition labelIsManaged :: "string \<Rightarrow> bool" where
  "labelIsManaged input = labelIsManagedLoop managedPRLabels input"

text \<open>The loop of \<^verbatim>\<open>labelIsVersionLabel\<close> over the version templates.\<close>

fun labelIsVersionLabelLoop :: "string list \<Rightarrow> string \<Rightarrow> string \<Rightarrow> bool" where
  "labelIsVersionLabelLoop [] label version = False"
| "labelIsVersionLabelLoop (ml # mls) label version =
     (if Contains label (ReplaceAll ml ''%v'' '''') then True
      else if Sprintf_v ml version = label then True
      else labelIsVersionLabelLoop mls label version)"

definition labelIsVersionLabel :: "string \<Rightarrow> string \<Rightarrow> bool" where
  "labelIsVersionLabel label version =
     labelIsVersionLabelLoop managedPRLabelTemplatesWithVersion label version"

text \<open>The inner loop of \<^verbatim>\<open>labelIsFileLabel\<close> over the missing files.\<close>

fun fileLabelMatches :: "string \<Rightarrow> string list \<Rightarrow> string \<Rightarrow> bool" where
  "fileLabelMatches ml [] label = False"
| "fileLabelMatches ml (f # fs) label =
     (if Sprintf_v ml f = label then True else fileLabelMatches ml fs label)"

fun labelIsFileLabelLoop :: "string list \<Rightarrow> string \<Rightarrow> string list \<Rightarrow> bool" where
  "labelIsFileLabelLoop [] label missingFiles = False"
| "labelIsFileLabelLoop (ml # mls) label missingFiles =
     (if Contains label (ReplaceAll ml ''%v'' '''') then True
      else if fileLabelMatches ml missingFiles label then True
      else labelIsFileLabelLoop mls label missingFiles)"

definition labelIsFileLabel :: "string \<Rightarrow> string list \<Rightarrow> bool" where
  "labelIsFileLabel label missingFiles =
     labelIsFileLabelLoop managedPRLabelTemplatesWithFileName label missingFiles"

section \<open>Case mapping and case folding\<close>

text \<open>
  \<^verbatim>\<open>strings.ToLower\<close>, \<^verbatim>\<open>strings.ToUpper\<close> and \<^verbatim>\<open>strings.EqualFold\<close> work byte by
  byte on ASCII input and consult the Unicode tables otherwise. The ASCII part is modelled
  in full; what the decoder and the Unicode tables answer on bytes of 128 and more is a
  parameter of the model, so every result below holds whatever those tables are.
\<close>

record unicodeFallback =
  uniToLower :: "string \<Rightarrow> string"
  uniToUpper :: "string \<Rightarrow> string"
  uniEqualFold :: "string \<Rightarrow> string \<Rightarrow> bool"

definition asciiLower :: "char \<Rightarrow> char" where
  "asciiLower c =
     (let n = (of_char c :: nat) in if 65 \<le> n \<and> n \<le> 90 then char_of (n + 32) else c)"

definition asciiUpper :: "char \<Rightarrow> char" where
  "asciiUpper c =
     (let n = (of_char c :: nat) in if 97 \<le> n \<and> n \<le> 122 then char_of (n - 32) else c)"

definition isASCII :: "string \<Rightarrow> bool" where
  "isASCII s = list_all (\<lambda>c. (of_char c :: nat) < 128) s"

text \<open>
  \<^verbatim>\<open>strings.ToLower\<close> maps the string rune by rune. A byte below 128 is a rune of its
  own whatever surrounds it (it is neither a lead byte nor a continuation byte of UTF-8), and
  is mapped to its ASCII lower case. The bytes between two such bytes, a maximal run of
  bytes of 128 and more, are decoded, mapped and encoded without regard to what is around
  them: \<open>uniToLower\<close> is what Go makes of such a run. The loop collects the current run
  and hands it over at the next ASCII byte or at the end of the string. On an ASCII string
  this is the byte-wise fast path of the library.
\<close>

definition flushRun :: "unicodeFallback \<Rightarrow> string \<Rightarrow> string" where
  "flushRun u run = (if run = [] then [] else uniToLower u run)"

fun lowerLoop :: "unicodeFallback \<Rightarrow> string \<Rightarrow> string \<Rightarrow> string" where
  "lowerLoop u run [] = flushRun u run"
| "lowerLoop u run (c # cs) =
     (if (of_char c :: nat) < 128
      then flushRun u run @ asciiLower c # lowerLoop u [] cs
      else lowerLoop u (run @ [c]) cs)"

definition ToLower :: "unicodeFallback \<Rightarrow> string \<Rightarrow> string" where
  "ToLower u s = lowerLoop u [] s"

text \<open>
  \<^verbatim>\<open>strings.ToUpper\<close> and \<^verbatim>\<open>strings.EqualFold\<close> are only applied to short strings
  here (one byte of an error text, the name and the state of a status context): on input
  that is not ASCII the whole answer is left to the parameter.
\<close>

definition ToUpper :: "unicodeFallback \<Rightarrow> string \<Rightarrow> string" where
  "ToUpper u s = (if isASCII s then map asciiUpper s else uniToUpper u s)"

definition EqualFold :: "unicodeFallback \<Rightarrow> string \<Rightarrow> string \<Rightarrow> bool" where
  "EqualFold u s t =
     (if isASCII s \<and> isASCII t then map asciiLower s = map asciiLower t
      else uniEqualFold u s t)"

text \<open>\<^verbatim>\<open>strings.Join(elems, sep)\<close>.\<close>

fun Join :: "string list \<Rightarrow> string \<Rightarrow> string" where
  "Join [] sep = []"
| "Join [e] sep = e"
| "Join (e # e' # es) sep = e @ sep @ Join (e' # es) sep"

section \<open>Data model\<close>

text \<open>
  The fields of \<^verbatim>\<open>suite.PullRequestQuery\<close> that the reconcilers read. The number,
  repository and owner of the pull request only address the client calls; every call of
  one pass goes to the same pull request, so they are left out of the calls below.
\<close>

record StatusContext =
  ctxContext :: string
  ctxState :: string

record Commit =
  commitOid :: string
  commitContexts :: "StatusContext list"

record PullRequestQuery =
  prTitle :: string
  prHeadRefOID :: string
  prCommits :: "Commit list"

text \<open>
  The fields of \<^verbatim>\<open>suite.PRSuite\<close> that the plugin reads or writes: \<open>PR_Labels\<close> is
  \<^verbatim>\<open>prSuite.PR.Labels\<close>, the in-memory label list of the pull request.
\<close>

record PRSuite =
  PR_Labels :: "string list"
  KubernetesReleaseVersion :: string
  MissingFiles :: "string list"

record IssueComment =
  icID :: int
  icBody :: string
  icLogin :: string

record CombinedStatus =
  csSHA :: string
  csState :: string

record Status =
  stContext :: string
  stState :: string
  stDescription :: string

section \<open>The GitHub client\<close>

text \<open>
  The mutating calls of the \<^verbatim>\<open>githubClient\<close> interface. \<open>DeleteComment\<close> is what
  \<^verbatim>\<open>DeleteStaleComments\<close> issues for each stale comment; \<open>CreateStatus\<close> carries the
  commit reference and the status.
\<close>

datatype call =
    AddLabel string
  | RemoveLabel string
  | DeleteComment int
  | CreateComment string
  | CreateStatus string Status

text \<open>
  A client answers the read calls from fixed data (\<open>None\<close> is an error return) and
  decides for every mutating call, from the mutating calls issued so far, whether it
  fails. The list of issued calls, failed ones included, is the state threaded through
  the reconcilers.
\<close>

record githubClient =
  callFails :: "call list \<Rightarrow> call \<Rightarrow> bool"
  ListIssueComments :: "IssueComment list option"
  BotUserChecker :: "(string \<Rightarrow> bool) option"
  GetCombinedStatus :: "string \<Rightarrow> CombinedStatus option"

datatype error =
    ErrAddLabel string
  | ErrRemoveLabel string
  | ErrListComments
  | ErrBotName
  | ErrPruneComments
  | ErrGetCombinedStatus
  | ErrClient call
  | ErrReleaseFileMissing string
  | ErrCollaborator string

section \<open>Label reconciler\<close>

text \<open>The membership loops of \<^verbatim>\<open>updateLabels\<close>: the flag \<^verbatim>\<open>foundInLabels\<close>.\<close>

fun foundInLabels :: "string \<Rightarrow> string list \<Rightarrow> bool" where
  "foundInLabels l [] = False"
| "foundInLabels l (prl # prls) = (if prl = l then True else foundInLabels l prls)"

text \<open>
  The loop labelled \<^verbatim>\<open>labels\<close>: the desired labels in order, with the accumulator
  \<^verbatim>\<open>newLabels\<close>. \<^verbatim>\<open>prSuite.PR.Labels\<close> is not changed inside the loop.
\<close>

fun addLabelsLoop ::
  "githubClient \<Rightarrow> PRSuite \<Rightarrow> string list \<Rightarrow> string list \<Rightarrow> call list \<Rightarrow>
     error option \<times> string list \<times> call list" where
  "addLabelsLoop ghc prSuite [] newLabels tr = (None, newLabels, tr)"
| "addLabelsLoop ghc prSuite (l # ls) newLabels tr =
     (if \<not> labelIsVersionLabel l (KubernetesReleaseVersion prSuite)
         \<and> \<not> labelIsFileLabel l (MissingFiles prSuite) \<and> \<not> labelIsManaged l
      then addLabelsLoop ghc prSuite ls newLabels tr
      else if foundInLabels l (PR_Labels prSuite)
      then addLabelsLoop ghc prSuite ls newLabels tr
      else if callFails ghc tr (AddLabel l)
      then (Some (ErrAddLabel l), newLabels, tr @ [AddLabel l])
      else addLabelsLoop ghc prSuite ls (newLabels @ [l]) (tr @ [AddLabel l]))"

text \<open>
  The loop labelled \<^verbatim>\<open>prLabels\<close>: the labels of the pull request in order. After a
  successful removal the source assigns
  \<^verbatim>\<open>removedLabels = append(prSuite.PR.Labels, prl)\<close>.
\<close>

fun removeLabelsLoop ::
  "githubClient \<Rightarrow> PRSuite \<Rightarrow> string list \<Rightarrow> string list \<Rightarrow> string list \<Rightarrow> call list \<Rightarrow>
     error option \<times> string list \<times> call list" where
  "removeLabelsLoop ghc prSuite labels [] removedLabels tr = (None, removedLabels, tr)"
| "removeLabelsLoop ghc prSuite labels (prl # prls) removedLabels tr =
     (if \<not> labelIsVersionLabel prl (KubernetesReleaseVersion prSuite)
         \<and> \<not> labelIsFileLabel prl (MissingFiles prSuite) \<and> \<not> labelIsManaged prl
      then removeLabelsLoop ghc prSuite labels prls removedLabels tr
      else if foundInLabels prl labels
      then removeLabelsLoop ghc prSuite labels prls removedLabels tr
      else if callFails ghc tr (RemoveLabel prl)
      then (Some (ErrRemoveLabel prl), removedLabels, tr @ [RemoveLabel prl])
      else removeLabelsLoop ghc prSuite labels prls (PR_Labels prSuite @ [prl])
             (tr @ [RemoveLabel prl]))"

text \<open>\<^verbatim>\<open>removeSliceOfStringsFromStringSlice\<close>, with its inner loop.\<close>

fun inRemoveSlice :: "string \<Rightarrow> string list \<Rightarrow> bool" where
  "inRemoveSlice oItem [] = False"
| "inRemoveSlice oItem (delString # rs) =
     (if oItem = delString then True else inRemoveSlice oItem rs)"

fun removeSliceOfStringsFromStringSlice :: "string list \<Rightarrow> string list \<Rightarrow> string list" where
  "removeSliceOfStringsFromStringSlice [] removeSlice = []"
| "removeSliceOfStringsFromStringSlice (oItem # os) removeSlice =
     (if inRemoveSlice oItem removeSlice
      then removeSliceOfStringsFromStringSlice os removeSlice
      else oItem # removeSliceOfStringsFromStringSlice os removeSlice)"

text \<open>
  \<^verbatim>\<open>updateLabels\<close> returns \<^verbatim>\<open>(newLabels, removedLabels, err)\<close>; the model returns this
  triple together with the suite as the call leaves it and the calls issued.
\<close>

definition updateLabels ::
  "githubClient \<Rightarrow> PRSuite \<Rightarrow> string list \<Rightarrow> call list \<Rightarrow>
     (string list \<times> string list \<times> error option) \<times> PRSuite \<times> call list" where
  "updateLabels ghc prSuite labels tr =
     (case addLabelsLoop ghc prSuite labels [] tr of
        (Some e, newLabels, tr1) \<Rightarrow> (([], [], Some e), prSuite, tr1)
      | (None, newLabels, tr1) \<Rightarrow>
          (let prSuite1 = prSuite\<lparr>PR_Labels := PR_Labels prSuite @ newLabels\<rparr> in
           case removeLabelsLoop ghc prSuite1 labels (PR_Labels prSuite1) [] tr1 of
             (Some e, removedLabels, tr2) \<Rightarrow> (([], [], Some e), prSuite1, tr2)
           | (None, removedLabels, tr2) \<Rightarrow>
               ((newLabels, removedLabels, None),
                prSuite1\<lparr>PR_Labels :=
                  removeSliceOfStringsFromStringSlice (PR_Labels prSuite1) removedLabels\<rparr>,
                tr2)))"

section \<open>Comment reconciler\<close>

text \<open>
  \<^verbatim>\<open>DeleteStaleComments\<close> is a method of the client library, not of this repository.
  It is modelled by its contract: the comments of the given list for which \<open>isStale\<close>
  holds are deleted in order, and the first failing deletion is returned as the error.
  (On a nil list the library lists the comments itself; \<^verbatim>\<open>updateComments\<close> always passes
  a non-nil slice.)
\<close>

fun DeleteStaleComments ::
  "githubClient \<Rightarrow> IssueComment list \<Rightarrow> (IssueComment \<Rightarrow> bool) \<Rightarrow> call list \<Rightarrow>
     error option \<times> call list" where
  "DeleteStaleComments ghc [] isStale tr = (None, tr)"
| "DeleteStaleComments ghc (c # cs) isStale tr =
     (if isStale c
      then (if callFails ghc tr (DeleteComment (icID c))
            then (Some (ErrClient (DeleteComment (icID c))), tr @ [DeleteComment (icID c)])
            else DeleteStaleComments ghc cs isStale (tr @ [DeleteComment (icID c)]))
      else DeleteStaleComments ghc cs isStale tr)"

text \<open>The loop of \<^verbatim>\<open>updateComments\<close> that collects \<^verbatim>\<open>botComments\<close>.\<close>

fun botCommentsLoop ::
  "(string \<Rightarrow> bool) \<Rightarrow> IssueComment list \<Rightarrow> IssueComment list \<Rightarrow> IssueComment list" where
  "botCommentsLoop botUserChecker [] botComments = botComments"
| "botCommentsLoop botUserChecker (c # cs) botComments =
     (if \<not> botUserChecker (icLogin c) then botCommentsLoop botUserChecker cs botComments
      else if icBody c = [] then botCommentsLoop botUserChecker cs botComments
      else botCommentsLoop botUserChecker cs (botComments @ [c]))"

definition updateComments ::
  "githubClient \<Rightarrow> string \<Rightarrow> call list \<Rightarrow> error option \<times> call list" where
  "updateComments ghc comment tr =
     (case ListIssueComments ghc of
        None \<Rightarrow> (Some ErrListComments, tr)
      | Some comments \<Rightarrow>
          (case BotUserChecker ghc of
             None \<Rightarrow> (Some ErrBotName, tr)
           | Some botUserChecker \<Rightarrow>
               (let botComments = botCommentsLoop botUserChecker comments [] in
                if length botComments > 0
                   \<and> icBody (botComments ! (length botComments - 1)) = comment
                then (None, tr)
                else
                  (let botCommentsToPrune =
                         (if length botComments > 0
                          then take (length botComments - 1) botComments
                          else botComments) in
                   case DeleteStaleComments ghc botCommentsToPrune
                          (\<lambda>ic. botUserChecker (icLogin ic)) tr of
                     (Some e, tr1) \<Rightarrow> (Some ErrPruneComments, tr1)
                   | (None, tr1) \<Rightarrow>
                       (if callFails ghc tr1 (CreateComment comment)
                        then (Some (ErrClient (CreateComment comment)),
                              tr1 @ [CreateComment comment])
                        else (None, tr1 @ [CreateComment comment]))))))"

section \<open>Title gate\<close>

definition isConformancePR :: "unicodeFallback \<Rightarrow> PullRequestQuery \<Rightarrow> bool" where
  "isConformancePR u pr = Contains (ToLower u (prTitle pr)) ''conformance results for''"

section \<open>Status reconciler\<close>

text \<open>
  The inner loop of \<^verbatim>\<open>updateStatus\<close> over the contexts of one commit: \<open>Some b\<close> when a
  context named \<^verbatim>\<open>verify-conformance\<close> was met (the loop then leaves both loops with
  the flag \<open>b\<close>), \<open>None\<close> when the contexts are exhausted. The constant
  \<^verbatim>\<open>githubql.StatusStateSuccess\<close> is the string \<^verbatim>\<open>SUCCESS\<close>.
\<close>

fun contextLoop :: "unicodeFallback \<Rightarrow> StatusContext list \<Rightarrow> bool option" where
  "contextLoop u [] = None"
| "contextLoop u (c # cs) =
     (if EqualFold u (ctxContext c) ''verify-conformance''
      then Some (EqualFold u (ctxState c) ''SUCCESS'')
      else contextLoop u cs)"

text \<open>The loop labelled \<^verbatim>\<open>commitLoop\<close>; its value is \<^verbatim>\<open>currentLatestHasCurrentStatus\<close>.\<close>

fun commitLoop :: "unicodeFallback \<Rightarrow> Commit list \<Rightarrow> string \<Rightarrow> bool" where
  "commitLoop u [] headRefOID = False"
| "commitLoop u (commit # commits) headRefOID =
     (if commitOid commit \<noteq> headRefOID then commitLoop u commits headRefOID
      else (case contextLoop u (commitContexts commit) of
              Some b \<Rightarrow> b
            | None \<Rightarrow> commitLoop u commits headRefOID))"

definition statusDescription :: "string \<Rightarrow> string" where
  "statusDescription state =
     (if state = ''success'' then ''All checks are passing''
      else if state = ''failure''
      then ''Please check failing requirements and update accordingly''
      else ''Internal error'')"

definition updateStatus ::
  "unicodeFallback \<Rightarrow> githubClient \<Rightarrow> PullRequestQuery \<Rightarrow> string \<Rightarrow> call list \<Rightarrow>
     error option \<times> call list" where
  "updateStatus u ghc pr state tr =
     (if commitLoop u (prCommits pr) (prHeadRefOID pr) then (None, tr)
      else
        (let description = statusDescription state in
         case GetCombinedStatus ghc (prHeadRefOID pr) of
           None \<Rightarrow> (Some ErrGetCombinedStatus, tr)
         | Some cs \<Rightarrow>
             (if csSHA cs = prHeadRefOID pr \<and> csState cs = state then (None, tr)
              else
                (let c = CreateStatus (prHeadRefOID pr)
                           \<lparr>stContext = ''verify-conformance'', stState = state,
                            stDescription = description\<rparr> in
                 if callFails ghc tr c then (Some (ErrClient c), tr @ [c])
                 else (None, tr @ [c])))))"

section \<open>The processing pass\<close>

text \<open>
  \<^verbatim>\<open>handle\<close> consults collaborators that live outside \<^verbatim>\<open>internal/plugin\<close>: the
  construction of the suite, the release validator, the metadata store, the rule suite
  and its result buffer. They only read GitHub and the file system; what they answer is a
  parameter of the pass. \<open>ItIsAValidAndSupportedRelease\<close> is a method on the suite, so it
  may return a changed suite together with the text of its error.
\<close>

datatype readResult = ReadOK | ReadNotExist | ReadOtherError

record collaborators =
  unicode :: unicodeFallback
  NewPRSuiteForPR :: "error + PRSuite"
  SetSubmissionMetadatafromFolderStructure :: "PRSuite \<Rightarrow> PRSuite"
  ItIsAValidAndSupportedRelease :: "PRSuite \<Rightarrow> string option \<times> PRSuite"
  ReadConformanceYAML :: "string \<Rightarrow> readResult"
  RunTestSuite :: "PRSuite \<Rightarrow> PRSuite"
  GetLabelsAndCommentsFromSuiteResultsBuffer ::
    "PRSuite \<Rightarrow> error + (string \<times> string list \<times> string)"

text \<open>
  A call of \<^verbatim>\<open>handle\<close> returns an error value (\<open>None\<close> is \<^verbatim>\<open>nil\<close>) or panics: the
  slice expression \<^verbatim>\<open>finalComment[:1]\<close> is out of range on an empty error text.
\<close>

datatype outcome = Returns "error option" | Panics

definition notConformanceComment :: string where
  "notConformanceComment =
     Join [''This pull request appears to not be a conformance results submission; Checks will not run.'',
           '''',
           ''If this change is intended to be verified as a conformance results submission see: ''
             @ ''[_content of the PR_](https://github.com/cncf/k8s-conformance/blob/master/instructions.md#contents-of-the-pr), ''
             @ ''and [_requirements_](https://github.com/cncf/k8s-conformance/blob/master/instructions.md#requirements)'']
          [CHR 0x0A]"

text \<open>
  The comment of the release gate:
  \<^verbatim>\<open>fmt.Sprintf("%v.", strings.ToUpper(finalComment[:1])+finalComment[1:])\<close>,
  for a non-empty text.
\<close>

definition releaseGateComment :: "unicodeFallback \<Rightarrow> string \<Rightarrow> string" where
  "releaseGateComment u finalComment =
     (ToUpper u (take 1 finalComment) @ drop 1 finalComment) @ ''.''"

definition metadataGateComment :: "string \<Rightarrow> string" where
  "metadataGateComment version =
     ''The release version '' @ version
       @ '' is unable to be processed at this time; Please wait as this version may become available soon.''"

definition handle ::
  "collaborators \<Rightarrow> githubClient \<Rightarrow> PullRequestQuery \<Rightarrow> call list \<Rightarrow> outcome \<times> call list" where
  "handle env ghc pr tr =
     (case NewPRSuiteForPR env of
        Inl err \<Rightarrow> (Returns (Some err), tr)
      | Inr prSuite0 \<Rightarrow>
         (let prSuite = SetSubmissionMetadatafromFolderStructure env prSuite0 in
          if \<not> isConformancePR (unicode env) pr then
            (let finalComment = notConformanceComment;
                 labels = [''not-conformance-product-submission'', ''unable-to-process''];
                 state = ''pending'' in
             case updateLabels ghc prSuite labels tr of
               ((nl, rl, Some err), prSuite1, tr1) \<Rightarrow> (Returns (Some err), tr1)
             | ((nl, rl, None), prSuite1, tr1) \<Rightarrow>
                 (case updateComments ghc finalComment tr1 of
                    (Some err, tr2) \<Rightarrow> (Returns (Some err), tr2)
                  | (None, tr2) \<Rightarrow>
                      (case updateStatus (unicode env) ghc pr state tr2 of
                         (Some err, tr3) \<Rightarrow> (Returns (Some err), tr3)
                       | (None, tr3) \<Rightarrow> (Returns None, tr3))))
          else
            (case ItIsAValidAndSupportedRelease env prSuite of
               (Some errText, prSuiteV) \<Rightarrow>
                 (if errText = [] then (Panics, tr)
                  else
                    (let finalComment = releaseGateComment (unicode env) errText;
                         labels = [''conformance-product-submission'', ''unable-to-process''];
                         state = ''pending'' in
                     case updateLabels ghc prSuiteV labels tr of
                       ((nl, rl, Some err), prSuite1, tr1) \<Rightarrow> (Returns (Some err), tr1)
                     | ((nl, rl, None), prSuite1, tr1) \<Rightarrow>
                         (case updateComments ghc finalComment tr1 of
                            (Some err, tr2) \<Rightarrow> (Returns (Some err), tr2)
                          | (None, tr2) \<Rightarrow>
                              (case updateStatus (unicode env) ghc pr state tr2 of
                                 (Some err, tr3) \<Rightarrow> (Returns (Some err), tr3)
                               | (None, tr3) \<Rightarrow>
                                   (Returns (Some (ErrReleaseFileMissing
                                      (KubernetesReleaseVersion prSuite1))), tr3)))))
             | (None, prSuiteV) \<Rightarrow>
                 (if ReadConformanceYAML env (KubernetesReleaseVersion prSuiteV) = ReadNotExist
                  then
                    (let finalComment = metadataGateComment (KubernetesReleaseVersion prSuiteV);
                         labels = [''conformance-product-submission'', ''unable-to-process''];
                         state = ''pending'' in
                     case updateLabels ghc prSuiteV labels tr of
                       ((nl, rl, Some err), prSuite1, tr1) \<Rightarrow> (Returns (Some err), tr1)
                     | ((nl, rl, None), prSuite1, tr1) \<Rightarrow>
                         (case updateComments ghc finalComment tr1 of
                            (Some err, tr2) \<Rightarrow> (Returns (Some err), tr2)
                          | (None, tr2) \<Rightarrow>
                              (case updateStatus (unicode env) ghc pr state tr2 of
                                 (Some err, tr3) \<Rightarrow> (Returns (Some err), tr3)
                               | (None, tr3) \<Rightarrow>
                                   (Returns (Some (ErrReleaseFileMissing
                                      (KubernetesReleaseVersion prSuite1))), tr3))))
                  else
                    (let prSuiteR = RunTestSuite env prSuiteV in
                     case GetLabelsAndCommentsFromSuiteResultsBuffer env prSuiteR of
                       Inl err \<Rightarrow> (Returns (Some err), tr)
                     | Inr (finalComment, labels, state) \<Rightarrow>
                         (if finalComment = [] \<and> length labels = 0 then (Returns None, tr)
                          else
                            (case updateLabels ghc prSuiteR labels tr of
                               ((newLabels, removedLabels, Some err), prSuite1, tr1) \<Rightarrow>
                                 (Returns (Some err), tr1)
                             | ((newLabels, removedLabels, None), prSuite1, tr1) \<Rightarrow>
                                 (case updateComments ghc finalComment tr1 of
                                    (Some err, tr2) \<Rightarrow> (Returns (Some err), tr2)
                                  | (None, tr2) \<Rightarrow>
                                      (case updateStatus (unicode env) ghc pr state tr2 of
                                         (Some err, tr3) \<Rightarrow> (Returns (Some err), tr3)
                                       | (None, tr3) \<Rightarrow> (Returns None, tr3))))))))))"

section \<open>The terminal step as the specification words it\<close>

text \<open>
  The specification describes every terminal step of the pass as: call the label
  reconciler, then the comment reconciler, then the status reconciler, propagating the first
  error met and skipping the later reconcilers. \<open>spec_terminalStep\<close> is that description;
  \<^const>\<open>handle\<close> above is the source, where the sequence is written out in each branch.
\<close>

definition spec_terminalStep ::
  "unicodeFallback \<Rightarrow> githubClient \<Rightarrow> PullRequestQuery \<Rightarrow> PRSuite \<Rightarrow> string list \<Rightarrow>
     string \<Rightarrow> string \<Rightarrow> call list \<Rightarrow> error option \<times> call list" where
  "spec_terminalStep u ghc pr prSuite labels comment state tr =
     (let l = updateLabels ghc prSuite labels tr in
      if snd (snd (fst l)) \<noteq> None then (snd (snd (fst l)), snd (snd l))
      else
        (let c = updateComments ghc comment (snd (snd l)) in
         if fst c \<noteq> None then c
         else updateStatus u ghc pr state (snd c)))"

section \<open>The comment reconciler as the specification words it\<close>

text \<open>
  The specification filters the comments to those that the bot wrote and that are not
  empty, and, when the latest of them differs from the new body, has all of them but the
  latest deleted and the new body posted. \<open>botCommentsOf\<close> is that filter and
  \<open>spec_commentCalls\<close> that sequence of calls.
\<close>

definition botCommentsOf :: "(string \<Rightarrow> bool) \<Rightarrow> IssueComment list \<Rightarrow> IssueComment list" where
  "botCommentsOf isBot comments =
     filter (\<lambda>c. isBot (icLogin c) \<and> icBody c \<noteq> []) comments"

definition spec_commentCalls ::
  "(string \<Rightarrow> bool) \<Rightarrow> IssueComment list \<Rightarrow> string \<Rightarrow> call list" where
  "spec_commentCalls isBot comments body =
     map (\<lambda>c. DeleteComment (icID c)) (butlast (botCommentsOf isBot comments))
       @ [CreateComment body]"

section \<open>Letter case\<close>

text \<open>
  Two bytes differ at most in letter case when one is the other, its ASCII upper case or
  its ASCII lower case; two strings do when they have the same length and their bytes do,
  position by position.
\<close>

definition caseVariant :: "char \<Rightarrow> char \<Rightarrow> bool" where
  "caseVariant a b = (b = a \<or> b = asciiUpper a \<or> b = asciiLower a)"


section \<open>The tracked status context of the head commit\<close>

text \<open>
  The status contexts of the commits whose object id is the head reference of the pull
  request, in the order of the query, and the first of them whose name is
  \<^verbatim>\<open>verify-conformance\<close>, letter case ignored.
\<close>

definition headStatusContexts :: "PullRequestQuery \<Rightarrow> StatusContext list" where
  "headStatusContexts pr =
     concat (map commitContexts
       (filter (\<lambda>commit. commitOid commit = prHeadRefOID pr) (prCommits pr)))"

definition firstTrackedContext :: "unicodeFallback \<Rightarrow> PullRequestQuery \<Rightarrow> StatusContext option" where
  "firstTrackedContext u pr =
     find (\<lambda>c. EqualFold u (ctxContext c) ''verify-conformance'') (headStatusContexts pr)"

section \<open>Example inputs\<close>

text \<open>Clients: one on which no call fails, one on which every call after the first fails.\<close>

definition neverFails :: "call list \<Rightarrow> call \<Rightarrow> bool" where
  "neverFails tr c = False"

definition failsAfterFirst :: "call list \<Rightarrow> call \<Rightarrow> bool" where
  "failsAfterFirst tr c = (tr \<noteq> [])"

definition isRobot :: "string \<Rightarrow> bool" where
  "isRobot login = (login = ''k8s-ci-robot'')"

definition pendingStatus :: "string \<Rightarrow> CombinedStatus option" where
  "pendingStatus ref = Some \<lparr>csSHA = ref, csState = ''pending''\<rparr>"

definition exampleClient :: githubClient where
  "exampleClient =
     \<lparr>callFails = neverFails, ListIssueComments = Some [],
      BotUserChecker = Some isRobot, GetCombinedStatus = pendingStatus\<rparr>"

definition failingClient :: githubClient where
  "failingClient =
     \<lparr>callFails = failsAfterFirst, ListIssueComments = Some [],
      BotUserChecker = Some isRobot, GetCombinedStatus = pendingStatus\<rparr>"

text \<open>Unicode tables that leave non-ASCII input alone.\<close>

definition exampleUnicode :: unicodeFallback where
  "exampleUnicode = \<lparr>uniToLower = id, uniToUpper = id, uniEqualFold = (=)\<rparr>"

text \<open>The suite of the specification's label scenario, and a suite without labels.\<close>

definition scenarioSuite :: PRSuite where
  "scenarioSuite =
     \<lparr>PR_Labels = [''release-v1.28'', ''unrelated-label''],
      KubernetesReleaseVersion = ''v1.29'', MissingFiles = []\<rparr>"

definition emptySuite :: PRSuite where
  "emptySuite = \<lparr>PR_Labels = [], KubernetesReleaseVersion = ''v1.29'', MissingFiles = []\<rparr>"

text \<open>
  Two comments of the robot, the later one with an empty body, and a comment of a human
  author.
\<close>

definition oldComment :: IssueComment where
  "oldComment = \<lparr>icID = 1, icBody = ''old'', icLogin = ''k8s-ci-robot''\<rparr>"

definition emptyComment :: IssueComment where
  "emptyComment = \<lparr>icID = 2, icBody = '''', icLogin = ''k8s-ci-robot''\<rparr>"

definition humanComment :: IssueComment where
  "humanComment = \<lparr>icID = 3, icBody = ''looks good'', icLogin = ''alice''\<rparr>"

definition olderComment :: IssueComment where
  "olderComment = \<lparr>icID = 0, icBody = ''older'', icLogin = ''k8s-ci-robot''\<rparr>"

definition emptyBodyClient :: githubClient where
  "emptyBodyClient =
     \<lparr>callFails = neverFails, ListIssueComments = Some [oldComment, emptyComment],
      BotUserChecker = Some isRobot, GetCombinedStatus = pendingStatus\<rparr>"

definition commentedClient :: githubClient where
  "commentedClient =
     \<lparr>callFails = neverFails,
      ListIssueComments = Some [olderComment, humanComment, oldComment, emptyComment],
      BotUserChecker = Some isRobot, GetCombinedStatus = pendingStatus\<rparr>"

text \<open>
  A pull request whose head commit carries a failed context named
  \<^verbatim>\<open>Verify-Conformance\<close> before a successful one named \<^verbatim>\<open>verify-conformance\<close>, and
  one whose head commit carries a single successful one after the context of another
  system.
\<close>

definition failedContext :: StatusContext where
  "failedContext = \<lparr>ctxContext = ''Verify-Conformance'', ctxState = ''FAILURE''\<rparr>"

definition successContext :: StatusContext where
  "successContext = \<lparr>ctxContext = ''verify-conformance'', ctxState = ''success''\<rparr>"

definition otherContext :: StatusContext where
  "otherContext = \<lparr>ctxContext = ''tide'', ctxState = ''PENDING''\<rparr>"

definition twoContextsPR :: PullRequestQuery where
  "twoContextsPR =
     \<lparr>prTitle = ''Conformance results for v1.29/example'', prHeadRefOID = ''abc'',
      prCommits = [\<lparr>commitOid = ''abc'', commitContexts = [failedContext, successContext]\<rparr>]\<rparr>"

definition verifiedPR :: PullRequestQuery where
  "verifiedPR =
     \<lparr>prTitle = ''Conformance results for v1.29/example'', prHeadRefOID = ''abc'',
      prCommits = [\<lparr>commitOid = ''123'', commitContexts = [failedContext]\<rparr>,
                   \<lparr>commitOid = ''abc'', commitContexts = [otherContext, successContext]\<rparr>]\<rparr>"

text \<open>An ASCII title in capitals.\<close>

definition shoutingPR :: PullRequestQuery where
  "shoutingPR =
     \<lparr>prTitle = ''CONFORMANCE RESULTS FOR V1.29/EXAMPLE'', prHeadRefOID = ''abc'',
      prCommits = []\<rparr>"



text \<open>
  Collaborators: a validator that rejects the release and one that accepts it, a metadata
  store with and without the file, a rule suite with nothing to report; and the three
  passes built from them. A pull request whose title is not a submission title.
\<close>

definition rejectRelease :: "PRSuite \<Rightarrow> string option \<times> PRSuite" where
  "rejectRelease s = (Some ''v1.99 is not a supported release'', s)"

definition acceptRelease :: "PRSuite \<Rightarrow> string option \<times> PRSuite" where
  "acceptRelease s = (None, s)"

definition metadataPresent :: "string \<Rightarrow> readResult" where
  "metadataPresent version = ReadOK"

definition metadataMissing :: "string \<Rightarrow> readResult" where
  "metadataMissing version = ReadNotExist"

definition nothingNew :: "PRSuite \<Rightarrow> error + (string \<times> string list \<times> string)" where
  "nothingNew s = Inr ('''', [], ''success'')"

definition passingEnv :: collaborators where
  "passingEnv =
     \<lparr>unicode = exampleUnicode, NewPRSuiteForPR = Inr emptySuite,
      SetSubmissionMetadatafromFolderStructure = id,
      ItIsAValidAndSupportedRelease = acceptRelease,
      ReadConformanceYAML = metadataPresent, RunTestSuite = id,
      GetLabelsAndCommentsFromSuiteResultsBuffer = nothingNew\<rparr>"

definition releaseGateEnv :: collaborators where
  "releaseGateEnv = passingEnv\<lparr>ItIsAValidAndSupportedRelease := rejectRelease\<rparr>"

definition metadataGateEnv :: collaborators where
  "metadataGateEnv = passingEnv\<lparr>ReadConformanceYAML := metadataMissing\<rparr>"

definition plainPR :: PullRequestQuery where
  "plainPR = \<lparr>prTitle = ''Update README'', prHeadRefOID = ''abc'', prCommits = []\<rparr>"

definition failedStatus :: "string \<Rightarrow> CombinedStatus option" where
  "failedStatus ref = Some \<lparr>csSHA = ref, csState = ''failure''\<rparr>"

definition staleClient :: githubClient where
  "staleClient = exampleClient\<lparr>GetCombinedStatus := failedStatus\<rparr>"

definition pendingStatusCall :: call where
  "pendingStatusCall =
     CreateStatus ''abc''
       \<lparr>stContext = ''verify-conformance'', stState = ''pending'',
        stDescription = ''Internal error''\<rparr>"

text \<open>
  A pull request that the release gate has already dealt with: the two labels are on it,
  the latest comment of the robot is the comment of the gate, and the combined status is
  \<^verbatim>\<open>pending\<close>.
\<close>

definition convergedSuite :: PRSuite where
  "convergedSuite =
     \<lparr>PR_Labels = [''conformance-product-submission'', ''unable-to-process''],
      KubernetesReleaseVersion = ''v1.29'', MissingFiles = []\<rparr>"

definition postedComment :: IssueComment where
  "postedComment =
     \<lparr>icID = 7, icBody = ''V1.99 is not a supported release.'', icLogin = ''k8s-ci-robot''\<rparr>"

definition convergedClient :: githubClient where
  "convergedClient = exampleClient\<lparr>ListIssueComments := Some [postedComment]\<rparr>"

definition convergedEnv :: collaborators where
  "convergedEnv = releaseGateEnv\<lparr>NewPRSuiteForPR := Inr convergedSuite\<rparr>"

section \<open>Facts about the string helpers\<close>

lemma hasPrefix_iff: "hasPrefix s p \<longleftrightarrow> (\<exists>q. s = p @ q)"
  by (induction s p rule: hasPrefix.induct) auto

lemma Contains_iff: "Contains s sub \<longleftrightarrow> (\<exists>p q. s = p @ sub @ q)"
proof (induction s)
  case Nil
  then show ?case by auto
next
  case (Cons c cs)
  show ?case
  proof
    assume "Contains (c # cs) sub"
    then consider "hasPrefix (c # cs) sub" | "Contains cs sub"
      by (auto split: if_splits)
    then show "\<exists>p q. c # cs = p @ sub @ q"
    proof cases
      case 1
      then obtain q where "c # cs = sub @ q" using hasPrefix_iff by blast
      then have "c # cs = [] @ sub @ q" by simp
      then show ?thesis by blast
    next
      case 2
      then obtain p q where "cs = p @ sub @ q" using Cons.IH by blast
      then have "c # cs = (c # p) @ sub @ q" by simp
      then show ?thesis by blast
    qed
  next
    assume "\<exists>p q. c # cs = p @ sub @ q"
    then obtain p q where pq: "c # cs = p @ sub @ q" by blast
    show "Contains (c # cs) sub"
    proof (cases p)
      case Nil
      with pq have "hasPrefix (c # cs) sub" using hasPrefix_iff by auto
      then show ?thesis by simp
    next
      case (Cons a p')
      with pq have "cs = p' @ sub @ q" by simp
      then have "Contains cs sub" using Cons.IH by blast
      then show ?thesis by simp
    qed
  qed
qed

lemma Contains_append: "Contains (p @ sub @ q) sub"
  using Contains_iff by blast

lemma stem_release: "ReplaceAll ''release-%v'' ''%v'' '''' = ''release-''"
  by (simp add: ReplaceAll_def)

lemma stem_no_failed_tests: "ReplaceAll ''no-failed-tests-%v'' ''%v'' '''' = ''no-failed-tests-''"
  by (simp add: ReplaceAll_def)

lemma stem_tests_verified: "ReplaceAll ''tests-verified-%v'' ''%v'' '''' = ''tests-verified-''"
  by (simp add: ReplaceAll_def)

lemma stem_missing_file: "ReplaceAll ''missing-file-%v'' ''%v'' '''' = ''missing-file-''"
  by (simp add: ReplaceAll_def)

lemma Sprintf_release: "Sprintf_v ''release-%v'' v = ''release-'' @ v"
  by (simp add: Sprintf_v_def ReplaceAll_def)

lemma Sprintf_no_failed_tests: "Sprintf_v ''no-failed-tests-%v'' v = ''no-failed-tests-'' @ v"
  by (simp add: Sprintf_v_def ReplaceAll_def)

lemma Sprintf_tests_verified: "Sprintf_v ''tests-verified-%v'' v = ''tests-verified-'' @ v"
  by (simp add: Sprintf_v_def ReplaceAll_def)

lemma Sprintf_missing_file: "Sprintf_v ''missing-file-%v'' f = ''missing-file-'' @ f"
  by (simp add: Sprintf_v_def ReplaceAll_def)

lemma labelIsManagedLoop_set: "labelIsManagedLoop ls input \<longleftrightarrow> input \<in> set ls"
  by (induction ls) auto

lemma fileLabelMatches_iff:
  "fileLabelMatches ml fs label \<longleftrightarrow> (\<exists>f \<in> set fs. Sprintf_v ml f = label)"
  by (induction fs) auto

text \<open>
  The exact-match tests of the two template classifiers are subsumed by the substring
  tests: a rendered template always contains its own stem.
\<close>

lemma Contains_rendered: "s @ v = l \<Longrightarrow> Contains l s"
  using Contains_append [of "[]" s v] by auto

lemma template_step:
  "(if Contains l s then True else if s @ v = l then True else R) = (Contains l s \<or> R)"
  using Contains_rendered by auto

lemma labelIsVersionLabel_iff:
  "labelIsVersionLabel label version \<longleftrightarrow>
     Contains label ''release-'' \<or> Contains label ''no-failed-tests-''
       \<or> Contains label ''tests-verified-''"
  unfolding labelIsVersionLabel_def managedPRLabelTemplatesWithVersion_def
    labelIsVersionLabelLoop.simps stem_release stem_no_failed_tests stem_tests_verified
    Sprintf_release Sprintf_no_failed_tests Sprintf_tests_verified template_step
  by (simp only: HOL.simp_thms)

lemma labelIsFileLabel_iff:
  "labelIsFileLabel label missingFiles \<longleftrightarrow> Contains label ''missing-file-''"
proof -
  have "fileLabelMatches ''missing-file-%v'' missingFiles label
          \<Longrightarrow> Contains label ''missing-file-''"
    unfolding fileLabelMatches_iff Sprintf_missing_file
    using Contains_rendered by blast
  then show ?thesis
    unfolding labelIsFileLabel_def managedPRLabelTemplatesWithFileName_def
      labelIsFileLabelLoop.simps stem_missing_file
    by (simp only: HOL.simp_thms split: if_splits) blast
qed

lemma labelIsManaged_iff: "labelIsManaged l \<longleftrightarrow> l \<in> set managedPRLabels"
  by (simp add: labelIsManaged_def labelIsManagedLoop_set)

section \<open>Properties of the label classifiers\<close>

text \<open>
  Claim C7. For every label and every version, \<^const>\<open>labelIsVersionLabel\<close> returns true
  whenever the label contains what remains of a version template once the verb is
  stripped, that is, whenever it contains \<^verbatim>\<open>release-\<close>, \<^verbatim>\<open>no-failed-tests-\<close> or
  \<^verbatim>\<open>tests-verified-\<close>; the version the label carries plays no part.
\<close>

theorem labelIsVersionLabel_any_version:
  "((\<exists>ml \<in> set managedPRLabelTemplatesWithVersion. Contains label (ReplaceAll ml ''%v'' ''''))
      \<longrightarrow> labelIsVersionLabel label version)
   \<and> (Contains label ''release-'' \<or> Contains label ''no-failed-tests-''
        \<or> Contains label ''tests-verified-'' \<longrightarrow> labelIsVersionLabel label version)"
  unfolding labelIsVersionLabel_iff
  by (auto simp: managedPRLabelTemplatesWithVersion_def stem_release stem_no_failed_tests
      stem_tests_verified)

text \<open>A label of version 1.28 is recognised while the current version is 1.29.\<close>

theorem labelIsVersionLabel_any_version_witness:
  "Contains ''release-v1.28'' ''release-''
   \<and> Sprintf_v ''release-%v'' ''v1.29'' \<noteq> ''release-v1.28''
   \<and> labelIsVersionLabel ''release-v1.28'' ''v1.29''"
  using labelIsVersionLabel_any_version [of "''release-v1.28''" "''v1.29''"]
  by (simp add: Sprintf_release)

text \<open>
  Claim C3 says that no label makes more than one of \<^const>\<open>labelIsManaged\<close>,
  \<^const>\<open>labelIsVersionLabel\<close> and \<^const>\<open>labelIsFileLabel\<close> true. The fixed name
  \<^verbatim>\<open>release-documents-checked\<close> contains the stem \<^verbatim>\<open>release-\<close>, so it is a fixed label
  and a version label at once.
\<close>

theorem fixed_label_is_version_label_counterexample:
  "labelIsManaged ''release-documents-checked''
   \<and> labelIsVersionLabel ''release-documents-checked'' ''v1.29''"
  by (simp add: labelIsManaged_iff managedPRLabels_def labelIsVersionLabel_iff)

text \<open>
  Claim C3, amended. The three classifiers are independent tests and may overlap, within
  these bounds: no label is both a fixed label and a file label; the only fixed label that
  is also a version label is \<^verbatim>\<open>release-documents-checked\<close>; a label is both a version
  label and a file label exactly when it contains \<^verbatim>\<open>missing-file-\<close> together with one
  of the three version stems.
\<close>

theorem label_categories_overlap:
  "\<not> (labelIsManaged label \<and> labelIsFileLabel label missingFiles)
   \<and> ((labelIsManaged label \<and> labelIsVersionLabel label version)
        = (label = ''release-documents-checked''))
   \<and> ((labelIsVersionLabel label version \<and> labelIsFileLabel label missingFiles)
        = (Contains label ''missing-file-''
           \<and> (Contains label ''release-'' \<or> Contains label ''no-failed-tests-''
                \<or> Contains label ''tests-verified-'')))"
proof -
  have "list_all (\<lambda>l. \<not> Contains l ''missing-file-'') managedPRLabels"
    unfolding managedPRLabels_def by simp
  then have fixed: "labelIsManaged label \<Longrightarrow> \<not> Contains label ''missing-file-''"
    by (simp add: labelIsManaged_iff list_all_iff)
  have "list_all (\<lambda>l. (Contains l ''release-'' \<or> Contains l ''no-failed-tests-''
           \<or> Contains l ''tests-verified-'') = (l = ''release-documents-checked''))
         managedPRLabels"
    unfolding managedPRLabels_def by simp
  then have ver: "labelIsManaged label \<Longrightarrow>
      (Contains label ''release-'' \<or> Contains label ''no-failed-tests-''
         \<or> Contains label ''tests-verified-'') = (label = ''release-documents-checked'')"
    by (simp add: labelIsManaged_iff list_all_iff)
  have rdc: "labelIsManaged ''release-documents-checked''"
    by (simp add: labelIsManaged_iff managedPRLabels_def)
  show ?thesis
    unfolding labelIsVersionLabel_iff labelIsFileLabel_iff
    using fixed ver rdc by blast
qed

theorem label_categories_overlap_witness:
  "labelIsManaged ''unable-to-process''
   \<and> \<not> labelIsVersionLabel ''unable-to-process'' ''v1.29''
   \<and> \<not> labelIsFileLabel ''unable-to-process'' [''PRODUCT.yaml'']"
  using label_categories_overlap [of "''unable-to-process''" "[''PRODUCT.yaml'']" "''v1.29''"]
  by (simp add: labelIsManaged_iff managedPRLabels_def)

section \<open>Properties of the label reconciler\<close>

lemma addLabelsLoop_error:
  "addLabelsLoop ghc s ls nl tr = (Some e, nl', tr') \<Longrightarrow> \<exists>l. e = ErrAddLabel l"
  by (induction ls arbitrary: nl tr) (auto split: if_splits)

lemma removeLabelsLoop_error:
  "removeLabelsLoop ghc s labels prls rl tr = (Some e, rl', tr')
     \<Longrightarrow> \<exists>l. e = ErrRemoveLabel l"
  by (induction prls arbitrary: rl tr) (auto split: if_splits)

text \<open>
  Claim C10. Whenever \<^const>\<open>updateLabels\<close> returns an error, both returned lists are
  empty, whatever calls succeeded before the failing one; and when the error comes from
  the loop that adds labels, the suite, and with it the in-memory label list, is as it
  was before the call.
\<close>

theorem updateLabels_error_returns_empty:
  assumes "updateLabels ghc prSuite labels tr
             = ((newLabels, removedLabels, Some e), prSuite', tr')"
  shows "newLabels = [] \<and> removedLabels = []
         \<and> ((\<exists>l. e = ErrAddLabel l) \<longrightarrow> prSuite' = prSuite)"
proof (cases "addLabelsLoop ghc prSuite labels [] tr")
  case (fields r nl tr1)
  show ?thesis
  proof (cases r)
    case None
    let ?s1 = "prSuite\<lparr>PR_Labels := PR_Labels prSuite @ nl\<rparr>"
    obtain r2 rl tr2
      where rm: "removeLabelsLoop ghc ?s1 labels (PR_Labels ?s1) [] tr1 = (r2, rl, tr2)"
      by (cases "removeLabelsLoop ghc ?s1 labels (PR_Labels ?s1) [] tr1") auto
    show ?thesis
    proof (cases r2)
      case None
      with assms fields \<open>r = None\<close> rm show ?thesis
        by (simp add: updateLabels_def Let_def)
    next
      case (Some e2)
      with rm removeLabelsLoop_error obtain l where "e2 = ErrRemoveLabel l" by blast
      with assms fields \<open>r = None\<close> rm Some show ?thesis
        by (auto simp add: updateLabels_def Let_def)
    qed
  next
    case (Some e1)
    with assms fields show ?thesis
      by (simp add: updateLabels_def)
  qed
qed

text \<open>
  The first label is added with success, the second addition fails: the lists come back
  empty and the suite is untouched.
\<close>

theorem updateLabels_error_returns_empty_witness:
  "updateLabels failingClient emptySuite
       [''conformance-product-submission'', ''unable-to-process''] []
     = (([], [], Some (ErrAddLabel ''unable-to-process'')), emptySuite,
        [AddLabel ''conformance-product-submission'', AddLabel ''unable-to-process''])"
proof -
  have h: "updateLabels failingClient emptySuite
       [''conformance-product-submission'', ''unable-to-process''] []
     = (([], [], Some (ErrAddLabel ''unable-to-process'')), emptySuite,
        [AddLabel ''conformance-product-submission'', AddLabel ''unable-to-process''])"
    by (simp add: updateLabels_def failingClient_def failsAfterFirst_def emptySuite_def
        labelIsManaged_iff managedPRLabels_def labelIsVersionLabel_iff labelIsFileLabel_iff)
  from updateLabels_error_returns_empty [OF h] h show ?thesis by simp
qed

lemma inRemoveSlice_set: "inRemoveSlice x rs \<longleftrightarrow> x \<in> set rs"
  by (induction rs) auto

lemma removeSlice_filter:
  "removeSliceOfStringsFromStringSlice xs rs = filter (\<lambda>x. x \<notin> set rs) xs"
  by (induction xs) (auto simp: inRemoveSlice_set)

lemma removeLabelsLoop_removed:
  "removeLabelsLoop ghc s labels prls rl tr = (r, rl', tr')
     \<Longrightarrow> rl' = rl \<or> (\<exists>prl. rl' = PR_Labels s @ [prl])"
  by (induction prls arbitrary: rl tr) (auto split: if_splits)

text \<open>
  What a successful \<^const>\<open>updateLabels\<close> leaves in memory: the extended label list when
  nothing was removed, and the empty list as soon as one label was removed.
\<close>

lemma updateLabels_in_memory:
  assumes "updateLabels ghc prSuite labels tr = ((newLabels, removedLabels, None), prSuite', tr')"
  shows "PR_Labels prSuite'
           = (if removedLabels = [] then PR_Labels prSuite @ newLabels else [])"
proof -
  obtain r nl tr1 where a: "addLabelsLoop ghc prSuite labels [] tr = (r, nl, tr1)"
    by (cases "addLabelsLoop ghc prSuite labels [] tr") auto
  let ?s1 = "prSuite\<lparr>PR_Labels := PR_Labels prSuite @ nl\<rparr>"
  obtain r2 rl tr2
    where rm: "removeLabelsLoop ghc ?s1 labels (PR_Labels ?s1) [] tr1 = (r2, rl, tr2)"
    by (cases "removeLabelsLoop ghc ?s1 labels (PR_Labels ?s1) [] tr1") auto
  from assms a rm have r: "r = None" "r2 = None"
    by (auto simp: updateLabels_def Let_def split: option.splits)
  with assms a rm have eq: "newLabels = nl" "removedLabels = rl"
    "PR_Labels prSuite' = removeSliceOfStringsFromStringSlice (PR_Labels ?s1) rl"
    by (auto simp: updateLabels_def Let_def)
  from removeLabelsLoop_removed [OF rm]
  consider "rl = []" | prl where "rl = PR_Labels ?s1 @ [prl]" by auto
  then show ?thesis
  proof cases
    case 1
    with eq show ?thesis by (simp add: removeSlice_filter)
  next
    case 2
    then have "removeSliceOfStringsFromStringSlice (PR_Labels ?s1) rl = []"
      by (simp add: removeSlice_filter)
    with eq 2 show ?thesis by simp
  qed
qed

text \<open>
  Claim C1 states that after a successful \<^const>\<open>updateLabels\<close> the in-memory label list
  holds the current labels, less the managed ones that are not desired, plus the desired
  ones, and that every unmanaged label is kept. The run below is the label scenario of the
  specification: current labels \<^verbatim>\<open>release-v1.28\<close> and \<^verbatim>\<open>unrelated-label\<close>, desired
  label \<^verbatim>\<open>release-v1.29\<close>, no call failing. The calls issued are the right ones, but
  the list of labels to filter out is built from the whole label list, and the in-memory
  list ends up empty: the unmanaged label and the label just added are lost.
\<close>

theorem updateLabels_scenario_loses_labels:
  "updateLabels exampleClient scenarioSuite [''release-v1.29''] []
     = (([''release-v1.29''],
         [''release-v1.28'', ''unrelated-label'', ''release-v1.29'', ''release-v1.28''], None),
        scenarioSuite\<lparr>PR_Labels := []\<rparr>,
        [AddLabel ''release-v1.29'', RemoveLabel ''release-v1.28''])
   \<and> ''unrelated-label'' \<in> set (PR_Labels scenarioSuite)
   \<and> \<not> labelIsManaged ''unrelated-label''
   \<and> \<not> labelIsVersionLabel ''unrelated-label'' (KubernetesReleaseVersion scenarioSuite)
   \<and> \<not> labelIsFileLabel ''unrelated-label'' (MissingFiles scenarioSuite)"
  by (simp add: updateLabels_def exampleClient_def neverFails_def scenarioSuite_def
      labelIsManaged_iff managedPRLabels_def labelIsVersionLabel_iff labelIsFileLabel_iff)

section \<open>Properties of the comment reconciler\<close>

lemma botCommentsLoop_filter:
  "botCommentsLoop check cs acc
     = acc @ filter (\<lambda>c. check (icLogin c) \<and> icBody c \<noteq> []) cs"
  by (induction cs arbitrary: acc) auto

lemma DeleteStaleComments_prefix:
  "\<exists>k. snd (DeleteStaleComments ghc cs isStale tr)
         = tr @ take k (map (\<lambda>c. DeleteComment (icID c)) (filter isStale cs))"
proof (induction cs arbitrary: tr)
  case Nil
  then show ?case by simp
next
  case (Cons c cs)
  let ?d = "DeleteComment (icID c)"
  let ?rest = "map (\<lambda>c. DeleteComment (icID c)) (filter isStale cs)"
  show ?case
  proof (cases "isStale c")
    case False
    then show ?thesis using Cons.IH [of tr] by simp
  next
    case True
    show ?thesis
    proof (cases "callFails ghc tr ?d")
      case True
      with \<open>isStale c\<close> show ?thesis by (intro exI [of _ 1]) simp
    next
      case False
      from Cons.IH [of "tr @ [?d]"] obtain k
        where "snd (DeleteStaleComments ghc cs isStale (tr @ [?d]))
                 = (tr @ [?d]) @ take k ?rest"
        by blast
      with False \<open>isStale c\<close> show ?thesis by (intro exI [of _ "Suc k"]) simp
    qed
  qed
qed

lemma DeleteStaleComments_ok:
  "fst (DeleteStaleComments ghc cs isStale tr) = None \<Longrightarrow>
     snd (DeleteStaleComments ghc cs isStale tr)
       = tr @ map (\<lambda>c. DeleteComment (icID c)) (filter isStale cs)"
  by (induction cs arbitrary: tr) (auto split: if_splits)

lemma DeleteStaleComments_neverFails:
  "(\<forall>t c. \<not> callFails ghc t c) \<Longrightarrow>
     DeleteStaleComments ghc cs isStale tr
       = (None, tr @ map (\<lambda>c. DeleteComment (icID c)) (filter isStale cs))"
  by (induction cs arbitrary: tr) auto

lemma filter_butlast_bots:
  "filter (\<lambda>ic. isBot (icLogin ic)) (butlast (botCommentsOf isBot comments))
     = butlast (botCommentsOf isBot comments)"
proof -
  have "\<forall>c \<in> set (butlast (botCommentsOf isBot comments)). isBot (icLogin c)"
    by (auto simp: botCommentsOf_def dest: in_set_butlastD)
  then show ?thesis by simp
qed

text \<open>The body of \<^const>\<open>updateComments\<close> once both read calls have answered.\<close>

lemma updateComments_unfold:
  assumes "ListIssueComments ghc = Some comments" and "BotUserChecker ghc = Some isBot"
  shows "updateComments ghc body tr =
     (let bots = botCommentsOf isBot comments in
      if bots \<noteq> [] \<and> icBody (last bots) = body then (None, tr)
      else
        (case DeleteStaleComments ghc (butlast bots) (\<lambda>ic. isBot (icLogin ic)) tr of
           (Some e, tr1) \<Rightarrow> (Some ErrPruneComments, tr1)
         | (None, tr1) \<Rightarrow>
             (if callFails ghc tr1 (CreateComment body)
              then (Some (ErrClient (CreateComment body)), tr1 @ [CreateComment body])
              else (None, tr1 @ [CreateComment body]))))"
proof -
  let ?bots = "botCommentsOf isBot comments"
  have b: "botCommentsLoop isBot comments [] = ?bots"
    by (simp add: botCommentsLoop_filter botCommentsOf_def)
  have l: "?bots \<noteq> [] \<Longrightarrow> ?bots ! (length ?bots - 1) = last ?bots"
    by (simp add: last_conv_nth)
  have p: "(if length ?bots > 0 then take (length ?bots - 1) ?bots else ?bots) = butlast ?bots"
    by (simp add: butlast_conv_take)
  show ?thesis
    unfolding updateComments_def assms option.case Let_def b p
    using l by auto
qed

text \<open>
  Claim C4 says that, unless the latest bot comment already has the new body,
  \<^const>\<open>updateComments\<close> deletes all bot-authored comments except the most recent one.
  Here the bot wrote two comments, the later one with an empty body: bot comments with an
  empty body are left out of the reckoning, so no comment at all is deleted.
\<close>

theorem updateComments_empty_body_counterexample:
  "ListIssueComments emptyBodyClient = Some [oldComment, emptyComment]
   \<and> BotUserChecker emptyBodyClient = Some isRobot
   \<and> isRobot (icLogin oldComment) \<and> isRobot (icLogin emptyComment)
   \<and> updateComments emptyBodyClient ''new'' [] = (None, [CreateComment ''new''])"
  by (simp add: updateComments_def emptyBodyClient_def neverFails_def isRobot_def
      oldComment_def emptyComment_def)

text \<open>
  Claim C4, amended. Let the bot comments be the comments that the bot wrote and whose
  body is not empty. If the latest bot comment has the new body, \<^const>\<open>updateComments\<close>
  makes no call and returns no error. Otherwise the calls it makes are an initial part of:
  one deletion for each bot comment but the latest, in order, then one
  \<open>CreateComment\<close> with the new body; they are all of these whenever it returns no
  error, and it returns no error when no call fails. A deletion is only ever issued for a
  non-empty comment of the bot: comments of other authors, and bot comments with an empty
  body, are never deleted.
\<close>

theorem updateComments_behaviour:
  assumes "ListIssueComments ghc = Some comments" and "BotUserChecker ghc = Some isBot"
  shows "(botCommentsOf isBot comments \<noteq> []
            \<and> icBody (last (botCommentsOf isBot comments)) = body
          \<longrightarrow> updateComments ghc body tr = (None, tr))
    \<and> (\<not> (botCommentsOf isBot comments \<noteq> []
             \<and> icBody (last (botCommentsOf isBot comments)) = body) \<longrightarrow>
          (\<exists>k. snd (updateComments ghc body tr)
                  = tr @ take k (spec_commentCalls isBot comments body))
          \<and> (fst (updateComments ghc body tr) = None
               \<longrightarrow> snd (updateComments ghc body tr)
                     = tr @ spec_commentCalls isBot comments body)
          \<and> ((\<forall>t c. \<not> callFails ghc t c)
               \<longrightarrow> updateComments ghc body tr
                     = (None, tr @ spec_commentCalls isBot comments body)))
    \<and> (\<forall>i. DeleteComment i \<in> set (snd (updateComments ghc body tr)) \<longrightarrow>
          DeleteComment i \<in> set tr
          \<or> (\<exists>c \<in> set comments. icID c = i \<and> isBot (icLogin c) \<and> icBody c \<noteq> []))"
proof -
  define bots where "bots = botCommentsOf isBot comments"
  define full where "full = spec_commentCalls isBot comments body"
  let ?stale = "\<lambda>ic. isBot (icLogin ic)"
  let ?dels = "map (\<lambda>c. DeleteComment (icID c)) (butlast bots)"
  let ?D = "DeleteStaleComments ghc (butlast bots) ?stale tr"
  have full: "full = ?dels @ [CreateComment body]"
    by (simp add: full_def spec_commentCalls_def bots_def)
  have fb: "filter ?stale (butlast bots) = butlast bots"
    unfolding bots_def by (rule filter_butlast_bots)
  note unf = updateComments_unfold [OF assms, of body tr, folded bots_def, unfolded Let_def]
  have same: "updateComments ghc body tr = (None, tr)"
    if "bots \<noteq> [] \<and> icBody (last bots) = body"
    using that unf by simp
  have pre: "\<exists>k. snd (updateComments ghc body tr) = tr @ take k full"
  proof (cases "bots \<noteq> [] \<and> icBody (last bots) = body")
    case True
    then have "snd (updateComments ghc body tr) = tr @ take 0 full" using same by simp
    then show ?thesis by blast
  next
    case False
    obtain k where k: "snd ?D = tr @ take k ?dels"
      using DeleteStaleComments_prefix [of ghc "butlast bots" ?stale tr] fb by auto
    show ?thesis
    proof (cases "fst ?D")
      case None
      then have "snd ?D = tr @ ?dels"
        using DeleteStaleComments_ok [of ghc "butlast bots" ?stale tr] fb by simp
      with None False have "snd (updateComments ghc body tr) = tr @ take (length full) full"
        using unf by (cases ?D) (auto simp: full)
      then show ?thesis by blast
    next
      case (Some e)
      with False k
      have "snd (updateComments ghc body tr) = tr @ take (min k (length ?dels)) full"
        using unf by (cases ?D) (auto simp: full min_def)
      then show ?thesis by blast
    qed
  qed
  have ok: "snd (updateComments ghc body tr) = tr @ full"
    if "\<not> (bots \<noteq> [] \<and> icBody (last bots) = body)"
      and "fst (updateComments ghc body tr) = None"
  proof -
    from that unf have n: "fst ?D = None"
      by (cases ?D) (auto split: option.splits if_splits)
    then have "snd ?D = tr @ ?dels"
      using DeleteStaleComments_ok [of ghc "butlast bots" ?stale tr] fb by simp
    with n that(1) show ?thesis
      using unf by (cases ?D) (auto simp: full)
  qed
  have nf: "updateComments ghc body tr = (None, tr @ full)"
    if "\<not> (bots \<noteq> [] \<and> icBody (last bots) = body)" and "\<forall>t c. \<not> callFails ghc t c"
    using that unf DeleteStaleComments_neverFails [OF that(2), of "butlast bots" ?stale tr] fb
    by (simp add: full)
  have del: "DeleteComment i \<in> set tr
          \<or> (\<exists>c \<in> set comments. icID c = i \<and> isBot (icLogin c) \<and> icBody c \<noteq> [])"
    if "DeleteComment i \<in> set (snd (updateComments ghc body tr))" for i
  proof -
    from pre obtain k where "snd (updateComments ghc body tr) = tr @ take k full" by blast
    with that have "DeleteComment i \<in> set tr \<or> DeleteComment i \<in> set (take k full)" by simp
    moreover have "DeleteComment i \<in> set ?dels" if "DeleteComment i \<in> set (take k full)"
      using in_set_takeD [OF that] by (auto simp: full)
    moreover have "\<exists>c \<in> set comments. icID c = i \<and> isBot (icLogin c) \<and> icBody c \<noteq> []"
      if "DeleteComment i \<in> set ?dels"
    proof -
      from that obtain c where "c \<in> set (butlast bots)" "icID c = i" by auto
      then have "c \<in> set bots" by (auto dest: in_set_butlastD)
      with \<open>icID c = i\<close> show ?thesis by (auto simp: bots_def botCommentsOf_def)
    qed
    ultimately show ?thesis by blast
  qed
  from same pre ok nf del show ?thesis
    unfolding bots_def full_def by blast
qed

text \<open>
  Four comments: two of the bot with a body, one of a human, one of the bot without a
  body. A new body has the older bot comment deleted and is posted; the body of the latest
  bot comment causes no call.
\<close>

theorem updateComments_behaviour_witness:
  "updateComments commentedClient ''new'' [] = (None, [DeleteComment 0, CreateComment ''new''])
   \<and> updateComments commentedClient ''old'' [] = (None, [])"
proof -
  have l: "ListIssueComments commentedClient
             = Some [olderComment, humanComment, oldComment, emptyComment]"
    and b: "BotUserChecker commentedClient = Some isRobot"
    and n: "\<forall>t c. \<not> callFails commentedClient t c"
    by (simp_all add: commentedClient_def neverFails_def)
  have bots: "botCommentsOf isRobot [olderComment, humanComment, oldComment, emptyComment]
                = [olderComment, oldComment]"
    by (simp add: botCommentsOf_def isRobot_def olderComment_def humanComment_def
        oldComment_def emptyComment_def)
  have ids: "icID olderComment = 0" and bodies: "icBody oldComment = ''old''"
    by (simp_all add: olderComment_def oldComment_def)
  from updateComments_behaviour [OF l b, of "''new''" "[]"]
    updateComments_behaviour [OF l b, of "''old''" "[]"] n
  show ?thesis
    by (simp add: bots spec_commentCalls_def ids bodies)
qed

section \<open>Properties of the status reconciler\<close>

lemma find_append_cases:
  "find P (xs @ ys) = (case find P xs of None \<Rightarrow> find P ys | Some x \<Rightarrow> Some x)"
  by (induction xs) auto

lemma contextLoop_find:
  "contextLoop u cs
     = map_option (\<lambda>c. EqualFold u (ctxState c) ''SUCCESS'')
         (find (\<lambda>c. EqualFold u (ctxContext c) ''verify-conformance'') cs)"
  by (induction cs) auto

lemma commitLoop_find:
  "commitLoop u commits headRefOID
     = (case find (\<lambda>c. EqualFold u (ctxContext c) ''verify-conformance'')
              (concat (map commitContexts
                 (filter (\<lambda>commit. commitOid commit = headRefOID) commits))) of
          None \<Rightarrow> False
        | Some c \<Rightarrow> EqualFold u (ctxState c) ''SUCCESS'')"
  by (induction commits)
     (auto simp: contextLoop_find find_append_cases split: option.splits)

lemma EqualFold_success: "EqualFold u ''success'' ''SUCCESS''"
  by code_simp

text \<open>
  Claim C2 says that a head commit carrying a context named \<^verbatim>\<open>verify-conformance\<close>
  with state \<^verbatim>\<open>success\<close> always keeps \<^const>\<open>updateStatus\<close> from creating a status. The
  loop compares names without regard to letter case and stops at the first match: when the
  head commit carries a failed context named \<^verbatim>\<open>Verify-Conformance\<close> before the
  successful one, the status is created.
\<close>

theorem updateStatus_second_context_counterexample:
  "prCommits twoContextsPR
     = [\<lparr>commitOid = prHeadRefOID twoContextsPR,
         commitContexts = [failedContext, successContext]\<rparr>]
   \<and> ctxContext failedContext = ''Verify-Conformance''
   \<and> ctxContext successContext = ''verify-conformance''
   \<and> ctxState successContext = ''success''
   \<and> updateStatus exampleUnicode exampleClient twoContextsPR ''failure'' []
       = (None,
          [CreateStatus ''abc''
             \<lparr>stContext = ''verify-conformance'', stState = ''failure'',
              stDescription = ''Please check failing requirements and update accordingly''\<rparr>])"
  by code_simp

text \<open>
  Claim C2, amended. For every pull request and every desired state: if the first status
  context named \<^verbatim>\<open>verify-conformance\<close> (letter case ignored) on the head commit, that
  is, among the contexts of the commits whose object id is the head reference, has the
  state \<^verbatim>\<open>success\<close> (letter case ignored), then \<^const>\<open>updateStatus\<close> issues no call
  and returns no error, whatever the desired state is.
\<close>

theorem updateStatus_verified_short_circuit:
  assumes "firstTrackedContext u pr = Some c" and "EqualFold u (ctxState c) ''SUCCESS''"
  shows "updateStatus u ghc pr desiredState tr = (None, tr)"
  using assms
  by (simp add: updateStatus_def commitLoop_find firstTrackedContext_def headStatusContexts_def)

text \<open>
  The head commit is the second commit of the query and its tracked context comes after
  the context of another system; the desired state is \<^verbatim>\<open>failure\<close>.
\<close>

theorem updateStatus_verified_short_circuit_witness:
  "firstTrackedContext exampleUnicode verifiedPR = Some successContext
   \<and> EqualFold exampleUnicode (ctxState successContext) ''SUCCESS''
   \<and> updateStatus exampleUnicode exampleClient verifiedPR ''failure'' [] = (None, [])"
proof -
  have f: "firstTrackedContext exampleUnicode verifiedPR = Some successContext"
    by code_simp
  have s: "EqualFold exampleUnicode (ctxState successContext) ''SUCCESS''"
    by (simp add: successContext_def EqualFold_success)
  from updateStatus_verified_short_circuit [OF f s, of exampleClient "''failure''" "[]"] f s
  show ?thesis by simp
qed

section \<open>Properties of the title gate\<close>





lemma caseVariant_ascii:
  assumes "caseVariant a b" and "(of_char a :: nat) < 128"
  shows "(of_char b :: nat) < 128"
proof -
  have "(of_char (asciiUpper a) :: nat) < 128"
    using assms(2) by (auto simp: asciiUpper_def Let_def)
  moreover have "(of_char (asciiLower a) :: nat) < 128"
    using assms(2) by (auto simp: asciiLower_def Let_def)
  ultimately show ?thesis using assms by (auto simp: caseVariant_def)
qed

lemma caseVariant_nonascii:
  assumes "caseVariant a b" and "\<not> (of_char a :: nat) < 128"
  shows "b = a"
  using assms by (auto simp: caseVariant_def asciiUpper_def asciiLower_def Let_def)

lemma caseVariant_ascii_iff:
  assumes "caseVariant a b"
  shows "((of_char b :: nat) < 128) = ((of_char a :: nat) < 128)"
  using assms caseVariant_ascii caseVariant_nonascii by blast














section \<open>Properties of the processing pass\<close>

lemma foundInLabels_set: "foundInLabels l prls \<longleftrightarrow> l \<in> set prls"
  by (induction prls) auto

lemma addLabelsLoop_extends:
  "\<exists>ext. snd (snd (addLabelsLoop ghc s ls nl tr)) = tr @ ext"
proof (induction ls arbitrary: nl tr)
  case Nil
  then show ?case by simp
next
  case (Cons l ls)
  from Cons [of "nl @ [l]" "tr @ [AddLabel l]"] obtain ext
    where "snd (snd (addLabelsLoop ghc s ls (nl @ [l]) (tr @ [AddLabel l])))
             = tr @ AddLabel l # ext" by auto
  with Cons [of nl tr] show ?case by auto
qed

lemma removeLabelsLoop_extends:
  "\<exists>ext. snd (snd (removeLabelsLoop ghc s labels prls rl tr)) = tr @ ext"
proof (induction prls arbitrary: rl tr)
  case Nil
  then show ?case by simp
next
  case (Cons prl prls)
  from Cons [of "PR_Labels s @ [prl]" "tr @ [RemoveLabel prl]"] obtain ext
    where "snd (snd (removeLabelsLoop ghc s labels prls (PR_Labels s @ [prl])
                       (tr @ [RemoveLabel prl]))) = tr @ RemoveLabel prl # ext" by auto
  with Cons [of rl tr] show ?case by auto
qed

lemma updateLabels_trace:
  "snd (snd (updateLabels ghc s labels tr))
     = (case addLabelsLoop ghc s labels [] tr of
          (Some e, nl, tr1) \<Rightarrow> tr1
        | (None, nl, tr1) \<Rightarrow>
            snd (snd (removeLabelsLoop ghc (s\<lparr>PR_Labels := PR_Labels s @ nl\<rparr>) labels
                        (PR_Labels s @ nl) [] tr1)))"
  by (simp add: updateLabels_def Let_def split: prod.splits option.splits)

lemma updateLabels_extends:
  "\<exists>ext. snd (snd (updateLabels ghc s labels tr)) = tr @ ext"
proof -
  obtain r nl tr1 where a: "addLabelsLoop ghc s labels [] tr = (r, nl, tr1)"
    by (cases "addLabelsLoop ghc s labels [] tr") auto
  from addLabelsLoop_extends [of ghc s labels "[]" tr] a obtain e1 where e1: "tr1 = tr @ e1"
    by auto
  show ?thesis
  proof (cases r)
    case (Some e)
    with a e1 show ?thesis by (simp add: updateLabels_trace)
  next
    case None
    from removeLabelsLoop_extends
      [of ghc "s\<lparr>PR_Labels := PR_Labels s @ nl\<rparr>" labels "PR_Labels s @ nl" "[]" tr1]
    obtain e2 where "snd (snd (removeLabelsLoop ghc (s\<lparr>PR_Labels := PR_Labels s @ nl\<rparr>)
                        labels (PR_Labels s @ nl) [] tr1)) = tr1 @ e2" by blast
    with None a e1 show ?thesis by (simp add: updateLabels_trace)
  qed
qed

text \<open>A managed label that the pull request lacks is added by the first call.\<close>

lemma updateLabels_first_add:
  assumes "labelIsManaged l" and "l \<notin> set (PR_Labels s)"
  shows "\<exists>ext. snd (snd (updateLabels ghc s (l # ls) tr)) = tr @ AddLabel l # ext"
proof (cases "callFails ghc tr (AddLabel l)")
  case True
  with assms have "addLabelsLoop ghc s (l # ls) [] tr
                     = (Some (ErrAddLabel l), [], tr @ [AddLabel l])"
    by (simp add: foundInLabels_set)
  then show ?thesis by (simp add: updateLabels_trace)
next
  case False
  with assms have a: "addLabelsLoop ghc s (l # ls) [] tr
                     = addLabelsLoop ghc s ls [l] (tr @ [AddLabel l])"
    by (simp add: foundInLabels_set)
  obtain r nl tr1 where b: "addLabelsLoop ghc s ls [l] (tr @ [AddLabel l]) = (r, nl, tr1)"
    by (cases "addLabelsLoop ghc s ls [l] (tr @ [AddLabel l])") auto
  from addLabelsLoop_extends [of ghc s ls "[l]" "tr @ [AddLabel l]"] b
  obtain e1 where e1: "tr1 = tr @ AddLabel l # e1" by auto
  show ?thesis
  proof (cases r)
    case (Some e)
    with a b e1 show ?thesis by (simp add: updateLabels_trace)
  next
    case None
    from removeLabelsLoop_extends
      [of ghc "s\<lparr>PR_Labels := PR_Labels s @ nl\<rparr>" "l # ls" "PR_Labels s @ nl" "[]" tr1]
    obtain e2 where "snd (snd (removeLabelsLoop ghc (s\<lparr>PR_Labels := PR_Labels s @ nl\<rparr>)
                        (l # ls) (PR_Labels s @ nl) [] tr1)) = tr1 @ e2" by blast
    with None a b e1 show ?thesis by (simp add: updateLabels_trace)
  qed
qed

lemma DeleteStaleComments_extends:
  "\<exists>ext. snd (DeleteStaleComments ghc cs isStale tr) = tr @ ext"
  using DeleteStaleComments_prefix [of ghc cs isStale tr] by blast

lemma updateComments_extends: "\<exists>ext. snd (updateComments ghc comment tr) = tr @ ext"
proof (cases "ListIssueComments ghc")
  case None
  then show ?thesis by (simp add: updateComments_def)
next
  case (Some comments)
  show ?thesis
  proof (cases "BotUserChecker ghc")
    case None
    with Some show ?thesis by (simp add: updateComments_def)
  next
    case (Some isBot)
    let ?bots = "botCommentsOf isBot comments"
    obtain r tr1 where d: "DeleteStaleComments ghc (butlast ?bots)
                              (\<lambda>ic. isBot (icLogin ic)) tr = (r, tr1)"
      by (cases "DeleteStaleComments ghc (butlast ?bots) (\<lambda>ic. isBot (icLogin ic)) tr") auto
    from DeleteStaleComments_extends
      [of ghc "butlast ?bots" "\<lambda>ic. isBot (icLogin ic)" tr] d
    obtain e where "tr1 = tr @ e" by auto
    with d show ?thesis
      unfolding updateComments_unfold [OF \<open>ListIssueComments ghc = Some comments\<close> Some]
      by (auto simp: Let_def split: option.splits)
  qed
qed

lemma updateStatus_extends: "\<exists>ext. snd (updateStatus u ghc pr state tr) = tr @ ext"
  by (simp add: updateStatus_def Let_def split: option.splits)

lemma spec_terminalStep_first_add:
  assumes "labelIsManaged l" and "l \<notin> set (PR_Labels s)"
  shows "\<exists>ext. snd (spec_terminalStep u ghc pr s (l # ls) comment state tr)
                  = tr @ AddLabel l # ext"
proof -
  let ?L = "updateLabels ghc s (l # ls) tr"
  from updateLabels_first_add [OF assms, of ghc ls tr] obtain e1
    where e1: "snd (snd ?L) = tr @ AddLabel l # e1" by blast
  let ?C = "updateComments ghc comment (snd (snd ?L))"
  from updateComments_extends [of ghc comment "snd (snd ?L)"] e1 obtain e2
    where e2: "snd ?C = tr @ AddLabel l # e2" by auto
  from updateStatus_extends [of u ghc pr state "snd ?C"] e2 obtain e3
    where e3: "snd (updateStatus u ghc pr state (snd ?C)) = tr @ AddLabel l # e3" by auto
  from e1 e2 e3 show ?thesis
    by (simp add: spec_terminalStep_def Let_def)
qed

text \<open>
  Claim C8. For every pull request that passes the three gates (the title is a submission
  title, the release is valid, the metadata file is not reported missing): if the rule
  suite returns an empty comment and an empty label list, \<^const>\<open>handle\<close> returns
  \<^verbatim>\<open>nil\<close> and issues no call: no label, comment or status is touched.
\<close>

theorem handle_nothing_new:
  assumes "NewPRSuiteForPR env = Inr prSuite0"
    and "isConformancePR (unicode env) pr"
    and "ItIsAValidAndSupportedRelease env (SetSubmissionMetadatafromFolderStructure env prSuite0)
           = (None, prSuiteV)"
    and "ReadConformanceYAML env (KubernetesReleaseVersion prSuiteV) \<noteq> ReadNotExist"
    and "GetLabelsAndCommentsFromSuiteResultsBuffer env (RunTestSuite env prSuiteV)
           = Inr ('''', [], state)"
  shows "handle env ghc pr tr = (Returns None, tr)"
  using assms by (simp add: handle_def)

text \<open>On a client whose every further call would fail, the pass still returns \<^verbatim>\<open>nil\<close>.\<close>

theorem handle_nothing_new_witness:
  "handle passingEnv failingClient shoutingPR [AddLabel ''earlier''] = (Returns None, [AddLabel ''earlier''])"
proof -
  have 1: "NewPRSuiteForPR passingEnv = Inr emptySuite"
    and 2: "isConformancePR (unicode passingEnv) shoutingPR"
    and 3: "ItIsAValidAndSupportedRelease passingEnv
              (SetSubmissionMetadatafromFolderStructure passingEnv emptySuite) = (None, emptySuite)"
    and 4: "ReadConformanceYAML passingEnv (KubernetesReleaseVersion emptySuite) \<noteq> ReadNotExist"
    and 5: "GetLabelsAndCommentsFromSuiteResultsBuffer passingEnv (RunTestSuite passingEnv emptySuite)
              = Inr ('''', [], ''success'')"
    by code_simp+
  from handle_nothing_new [OF 1 2 3 4 5] show ?thesis .
qed

text \<open>
  Claim C5 says that each of the three gate failures produces a label, comment and status
  mutation. The reconcilers only issue a call where GitHub differs from the outcome of the
  gate: on a pull request that already carries the two labels, the comment of the gate
  and the status \<^verbatim>\<open>pending\<close>, a failed release validation issues no call at all, and
  \<^const>\<open>handle\<close> still reports the error.
\<close>

theorem handle_converged_counterexample:
  "NewPRSuiteForPR convergedEnv = Inr convergedSuite
   \<and> isConformancePR (unicode convergedEnv) shoutingPR
   \<and> ItIsAValidAndSupportedRelease convergedEnv
         (SetSubmissionMetadatafromFolderStructure convergedEnv convergedSuite)
       = (Some ''v1.99 is not a supported release'', convergedSuite)
   \<and> handle convergedEnv convergedClient shoutingPR []
       = (Returns (Some (ErrReleaseFileMissing ''v1.29'')), [])"
  by code_simp

text \<open>
  Claim C5, amended. For every pull request, each of the three gate failures (a title that
  is not a submission title; a release that fails validation, with a non-empty error
  text; a missing metadata file) runs the label reconciler, then the comment reconciler,
  then the status reconciler with the labels, the comment and the state \<^verbatim>\<open>pending\<close> of
  that gate, each only if the one before returned no error. Calls are issued only where
  GitHub differs from that outcome; when the first label of the gate is not on the pull
  request, the first call issued adds it. After a title that is not a submission title
  \<^const>\<open>handle\<close> returns what the reconcilers return, so \<^verbatim>\<open>nil\<close> when they succeed;
  after the two other gate failures it returns an error in every case.
\<close>

theorem handle_gate_failures:
  assumes "NewPRSuiteForPR env = Inr prSuite0"
  shows "(\<not> isConformancePR (unicode env) pr \<longrightarrow>
            handle env ghc pr tr
              = (Returns (fst (spec_terminalStep (unicode env) ghc pr
                     (SetSubmissionMetadatafromFolderStructure env prSuite0)
                     [''not-conformance-product-submission'', ''unable-to-process'']
                     notConformanceComment ''pending'' tr)),
                 snd (spec_terminalStep (unicode env) ghc pr
                     (SetSubmissionMetadatafromFolderStructure env prSuite0)
                     [''not-conformance-product-submission'', ''unable-to-process'']
                     notConformanceComment ''pending'' tr))
            \<and> (''not-conformance-product-submission''
                  \<notin> set (PR_Labels (SetSubmissionMetadatafromFolderStructure env prSuite0))
                \<longrightarrow> (\<exists>rest. snd (handle env ghc pr tr)
                       = tr @ AddLabel ''not-conformance-product-submission'' # rest)))
    \<and> (isConformancePR (unicode env) pr
         \<and> ItIsAValidAndSupportedRelease env
               (SetSubmissionMetadatafromFolderStructure env prSuite0) = (Some errText, prSuiteV)
         \<and> errText \<noteq> [] \<longrightarrow>
            (\<exists>e. fst (handle env ghc pr tr) = Returns (Some e))
            \<and> snd (handle env ghc pr tr)
                = snd (spec_terminalStep (unicode env) ghc pr prSuiteV
                     [''conformance-product-submission'', ''unable-to-process'']
                     (releaseGateComment (unicode env) errText) ''pending'' tr)
            \<and> (''conformance-product-submission'' \<notin> set (PR_Labels prSuiteV)
                \<longrightarrow> (\<exists>rest. snd (handle env ghc pr tr)
                       = tr @ AddLabel ''conformance-product-submission'' # rest)))
    \<and> (isConformancePR (unicode env) pr
         \<and> ItIsAValidAndSupportedRelease env
               (SetSubmissionMetadatafromFolderStructure env prSuite0) = (None, prSuiteV)
         \<and> ReadConformanceYAML env (KubernetesReleaseVersion prSuiteV) = ReadNotExist \<longrightarrow>
            (\<exists>e. fst (handle env ghc pr tr) = Returns (Some e))
            \<and> snd (handle env ghc pr tr)
                = snd (spec_terminalStep (unicode env) ghc pr prSuiteV
                     [''conformance-product-submission'', ''unable-to-process'']
                     (metadataGateComment (KubernetesReleaseVersion prSuiteV)) ''pending'' tr)
            \<and> (''conformance-product-submission'' \<notin> set (PR_Labels prSuiteV)
                \<longrightarrow> (\<exists>rest. snd (handle env ghc pr tr)
                       = tr @ AddLabel ''conformance-product-submission'' # rest)))"
proof -
  let ?s = "SetSubmissionMetadatafromFolderStructure env prSuite0"
  let ?u = "unicode env"
  define notSub where "notSub = ''not-conformance-product-submission''"
  define sub where "sub = ''conformance-product-submission''"
  define rest where "rest = [''unable-to-process'']"
  have managed: "labelIsManaged notSub" "labelIsManaged sub"
    by (simp_all add: notSub_def sub_def labelIsManaged_iff managedPRLabels_def)
  have g1: "handle env ghc pr tr
              = (Returns (fst (spec_terminalStep ?u ghc pr ?s (notSub # rest)
                                 notConformanceComment ''pending'' tr)),
                 snd (spec_terminalStep ?u ghc pr ?s (notSub # rest)
                        notConformanceComment ''pending'' tr))"
    if "\<not> isConformancePR ?u pr"
    using that assms
    by (simp add: handle_def spec_terminalStep_def Let_def notSub_def rest_def
        split: prod.splits option.splits)
  have g2: "(\<exists>e. fst (handle env ghc pr tr) = Returns (Some e))
            \<and> snd (handle env ghc pr tr)
                = snd (spec_terminalStep ?u ghc pr prSuiteV (sub # rest)
                     (releaseGateComment ?u errText) ''pending'' tr)"
    if "isConformancePR ?u pr
         \<and> ItIsAValidAndSupportedRelease env ?s = (Some errText, prSuiteV) \<and> errText \<noteq> []"
    using that assms
    by (simp add: handle_def spec_terminalStep_def Let_def sub_def rest_def
        split: prod.splits option.splits)
  have g3: "(\<exists>e. fst (handle env ghc pr tr) = Returns (Some e))
            \<and> snd (handle env ghc pr tr)
                = snd (spec_terminalStep ?u ghc pr prSuiteV (sub # rest)
                     (metadataGateComment (KubernetesReleaseVersion prSuiteV)) ''pending'' tr)"
    if "isConformancePR ?u pr
         \<and> ItIsAValidAndSupportedRelease env ?s = (None, prSuiteV)
         \<and> ReadConformanceYAML env (KubernetesReleaseVersion prSuiteV) = ReadNotExist"
    using that assms
    by (simp add: handle_def spec_terminalStep_def Let_def sub_def rest_def
        split: prod.splits option.splits)
  have a1: "\<exists>r. snd (handle env ghc pr tr) = tr @ AddLabel notSub # r"
    if "\<not> isConformancePR ?u pr" and "notSub \<notin> set (PR_Labels ?s)"
    using g1 [OF that(1)] spec_terminalStep_first_add [OF managed(1) that(2)] by simp
  have a2: "\<exists>r. snd (handle env ghc pr tr) = tr @ AddLabel sub # r"
    if "isConformancePR ?u pr
         \<and> ItIsAValidAndSupportedRelease env ?s = (Some errText, prSuiteV) \<and> errText \<noteq> []"
      and "sub \<notin> set (PR_Labels prSuiteV)"
    using g2 [OF that(1)] spec_terminalStep_first_add [OF managed(2) that(2)] by simp
  have a3: "\<exists>r. snd (handle env ghc pr tr) = tr @ AddLabel sub # r"
    if "isConformancePR ?u pr
         \<and> ItIsAValidAndSupportedRelease env ?s = (None, prSuiteV)
         \<and> ReadConformanceYAML env (KubernetesReleaseVersion prSuiteV) = ReadNotExist"
      and "sub \<notin> set (PR_Labels prSuiteV)"
    using g3 [OF that(1)] spec_terminalStep_first_add [OF managed(2) that(2)] by simp
  from g1 g2 g3 a1 a2 a3 show ?thesis
    unfolding notSub_def sub_def rest_def by blast
qed

text \<open>One pass through each gate, on a client whose combined status is \<^verbatim>\<open>failure\<close>.\<close>

theorem handle_gate_failures_witness:
  "handle passingEnv staleClient plainPR []
     = (Returns None,
        [AddLabel ''not-conformance-product-submission'', AddLabel ''unable-to-process'',
         CreateComment notConformanceComment, pendingStatusCall])
   \<and> fst (handle releaseGateEnv staleClient shoutingPR []) \<noteq> Returns None
   \<and> snd (handle releaseGateEnv staleClient shoutingPR [])
       = [AddLabel ''conformance-product-submission'', AddLabel ''unable-to-process'',
          CreateComment ''V1.99 is not a supported release.'', pendingStatusCall]
   \<and> fst (handle metadataGateEnv staleClient shoutingPR []) \<noteq> Returns None
   \<and> snd (handle metadataGateEnv staleClient shoutingPR [])
       = [AddLabel ''conformance-product-submission'', AddLabel ''unable-to-process'',
          CreateComment (metadataGateComment ''v1.29''), pendingStatusCall]"
proof -
  have s1: "NewPRSuiteForPR passingEnv = Inr emptySuite"
    and s2: "NewPRSuiteForPR releaseGateEnv = Inr emptySuite"
    and s3: "NewPRSuiteForPR metadataGateEnv = Inr emptySuite"
    by code_simp+
  have g1: "\<not> isConformancePR (unicode passingEnv) plainPR"
    by code_simp
  have g2: "isConformancePR (unicode releaseGateEnv) shoutingPR
      \<and> ItIsAValidAndSupportedRelease releaseGateEnv
           (SetSubmissionMetadatafromFolderStructure releaseGateEnv emptySuite)
          = (Some ''v1.99 is not a supported release'', emptySuite)
      \<and> ''v1.99 is not a supported release'' \<noteq> []"
    by code_simp
  have g3: "isConformancePR (unicode metadataGateEnv) shoutingPR
      \<and> ItIsAValidAndSupportedRelease metadataGateEnv
           (SetSubmissionMetadatafromFolderStructure metadataGateEnv emptySuite)
          = (None, emptySuite)
      \<and> ReadConformanceYAML metadataGateEnv (KubernetesReleaseVersion emptySuite) = ReadNotExist"
    by code_simp
  have t1: "spec_terminalStep (unicode passingEnv) staleClient plainPR
              (SetSubmissionMetadatafromFolderStructure passingEnv emptySuite)
              [''not-conformance-product-submission'', ''unable-to-process'']
              notConformanceComment ''pending'' []
     = (None,
        [AddLabel ''not-conformance-product-submission'', AddLabel ''unable-to-process'',
         CreateComment notConformanceComment, pendingStatusCall])"
    by code_simp
  have t2: "spec_terminalStep (unicode releaseGateEnv) staleClient shoutingPR emptySuite
              [''conformance-product-submission'', ''unable-to-process'']
              (releaseGateComment (unicode releaseGateEnv) ''v1.99 is not a supported release'')
              ''pending'' []
     = (None,
        [AddLabel ''conformance-product-submission'', AddLabel ''unable-to-process'',
         CreateComment ''V1.99 is not a supported release.'', pendingStatusCall])"
    by code_simp
  have t3: "spec_terminalStep (unicode metadataGateEnv) staleClient shoutingPR emptySuite
              [''conformance-product-submission'', ''unable-to-process'']
              (metadataGateComment (KubernetesReleaseVersion emptySuite)) ''pending'' []
     = (None,
        [AddLabel ''conformance-product-submission'', AddLabel ''unable-to-process'',
         CreateComment (metadataGateComment ''v1.29''), pendingStatusCall])"
    by code_simp
  from handle_gate_failures [OF s1, where pr = plainPR and ghc = staleClient and tr = "[]"] g1 t1
  have a: "handle passingEnv staleClient plainPR []
     = (Returns None,
        [AddLabel ''not-conformance-product-submission'', AddLabel ''unable-to-process'',
         CreateComment notConformanceComment, pendingStatusCall])"
    by simp
  from handle_gate_failures [OF s2, where pr = shoutingPR and ghc = staleClient and tr = "[]"
      and errText = "''v1.99 is not a supported release''" and prSuiteV = emptySuite] g2 t2
  have b: "fst (handle releaseGateEnv staleClient shoutingPR []) \<noteq> Returns None
   \<and> snd (handle releaseGateEnv staleClient shoutingPR [])
       = [AddLabel ''conformance-product-submission'', AddLabel ''unable-to-process'',
          CreateComment ''V1.99 is not a supported release.'', pendingStatusCall]"
    by auto
  from handle_gate_failures [OF s3, where pr = shoutingPR and ghc = staleClient and tr = "[]"
      and prSuiteV = emptySuite] g3 t3
  have c: "fst (handle metadataGateEnv staleClient shoutingPR []) \<noteq> Returns None
   \<and> snd (handle metadataGateEnv staleClient shoutingPR [])
       = [AddLabel ''conformance-product-submission'', AddLabel ''unable-to-process'',
          CreateComment (metadataGateComment ''v1.29''), pendingStatusCall]"
    by auto
  from a b c show ?thesis by blast
qed

text \<open>
  Claim C6 says that the comment posted after a failed release validation equals the
  error text of the validator with its first letter capitalised. The comment that is
  posted ends with a full stop that the error text does not have.
\<close>

theorem handle_unsupported_release_counterexample:
  "ItIsAValidAndSupportedRelease releaseGateEnv emptySuite
     = (Some ''v1.99 is not a supported release'', emptySuite)
   \<and> handle releaseGateEnv staleClient shoutingPR []
     = (Returns (Some (ErrReleaseFileMissing ''v1.29'')),
        [AddLabel ''conformance-product-submission'', AddLabel ''unable-to-process'',
         CreateComment ''V1.99 is not a supported release.'', pendingStatusCall])"
  by code_simp

text \<open>
  Claim C6, amended. For every pull request whose release validation fails, with a
  non-empty error text, \<^const>\<open>handle\<close> runs the terminal step with the desired labels
  \<^verbatim>\<open>conformance-product-submission\<close> and \<^verbatim>\<open>unable-to-process\<close>, with the comment made
  of the error text, its first byte in upper case, followed by a full stop, and with the
  status \<^verbatim>\<open>pending\<close>; and it reports an error to the caller in every case.
\<close>

theorem handle_unsupported_release:
  assumes "NewPRSuiteForPR env = Inr prSuite0"
    and "isConformancePR (unicode env) pr"
    and "ItIsAValidAndSupportedRelease env (SetSubmissionMetadatafromFolderStructure env prSuite0)
           = (Some errText, prSuiteV)"
    and "errText \<noteq> []"
  shows "(\<exists>e. fst (handle env ghc pr tr) = Returns (Some e))
    \<and> snd (handle env ghc pr tr)
        = snd (spec_terminalStep (unicode env) ghc pr prSuiteV
                 [''conformance-product-submission'', ''unable-to-process'']
                 (ToUpper (unicode env) [hd errText] @ tl errText @ ''.'') ''pending'' tr)
    \<and> (isASCII [hd errText]
         \<longrightarrow> ToUpper (unicode env) [hd errText] = [asciiUpper (hd errText)])"
proof -
  from assms(4) have c: "releaseGateComment (unicode env) errText
      = ToUpper (unicode env) [hd errText] @ tl errText @ ''.''"
    by (cases errText) (simp_all add: releaseGateComment_def)
  from assms have "\<exists>e. fst (handle env ghc pr tr) = Returns (Some e)"
    by (simp add: handle_def Let_def split: prod.splits option.splits)
  moreover from assms have "snd (handle env ghc pr tr)
        = snd (spec_terminalStep (unicode env) ghc pr prSuiteV
                 [''conformance-product-submission'', ''unable-to-process'']
                 (releaseGateComment (unicode env) errText) ''pending'' tr)"
    by (simp add: handle_def spec_terminalStep_def Let_def split: prod.splits option.splits)
  ultimately show ?thesis
    unfolding c by (simp add: ToUpper_def)
qed

text \<open>The second addition of a label fails: the pass stops there and reports an error.\<close>

theorem handle_unsupported_release_witness:
  "fst (handle releaseGateEnv failingClient shoutingPR []) \<noteq> Returns None
   \<and> snd (handle releaseGateEnv failingClient shoutingPR [])
       = [AddLabel ''conformance-product-submission'', AddLabel ''unable-to-process'']"
proof -
  have 1: "NewPRSuiteForPR releaseGateEnv = Inr emptySuite"
    and 2: "isConformancePR (unicode releaseGateEnv) shoutingPR"
    and 3: "ItIsAValidAndSupportedRelease releaseGateEnv
              (SetSubmissionMetadatafromFolderStructure releaseGateEnv emptySuite)
             = (Some ''v1.99 is not a supported release'', emptySuite)"
    and 4: "''v1.99 is not a supported release'' \<noteq> []"
    by code_simp+
  have t: "spec_terminalStep (unicode releaseGateEnv) failingClient shoutingPR emptySuite
              [''conformance-product-submission'', ''unable-to-process'']
              (ToUpper (unicode releaseGateEnv) [hd ''v1.99 is not a supported release'']
                 @ tl ''v1.99 is not a supported release'' @ ''.'')
              ''pending'' []
     = (Some (ErrAddLabel ''unable-to-process''),
        [AddLabel ''conformance-product-submission'', AddLabel ''unable-to-process''])"
    by code_simp
  from handle_unsupported_release [OF 1 2 3 4, where ghc = failingClient and tr = "[]"] t
  show ?thesis by auto
qed

end
